theory Spec2Isabelle
  imports Main
begin

section \<open>Library values: decimal text, calendar dates, date parsing\<close>

text \<open>
  The program is Python on top of \<^verbatim>\<open>datetime\<close>, \<^verbatim>\<open>dateutil\<close>, \<^verbatim>\<open>numpy\<close> and
  \<^verbatim>\<open>pandas\<close>. This section models the library values the two source files
  \<^verbatim>\<open>gdelt/dateFuncs.py\<close> and \<^verbatim>\<open>gdelt/base.py\<close> compute with; the sections after it
  follow the source functions branch by branch.
\<close>

subsection \<open>Decimal digits\<close>

definition digit :: "nat \<Rightarrow> char" where
  "digit k = char_of (48 + k)"

definition is_digit :: "char \<Rightarrow> bool" where
  "is_digit c = (48 \<le> (of_char c :: nat) \<and> (of_char c :: nat) \<le> 57)"

definition digit_val :: "char \<Rightarrow> nat" where
  "digit_val c = of_char c - 48"

text \<open>Python's \<^verbatim>\<open>str(n)\<close> for a non-negative integer.\<close>

fun str_nat :: "nat \<Rightarrow> string" where
  "str_nat n = (if n < 10 then [digit n] else str_nat (n div 10) @ [digit (n mod 10)])"

declare str_nat.simps [simp del]

text \<open>Zero padding to a width, as \<^verbatim>\<open>%02d\<close> and \<^verbatim>\<open>%04d\<close> do.\<close>

definition zfill :: "nat \<Rightarrow> nat \<Rightarrow> string" where
  "zfill w n = replicate (w - length (str_nat n)) (CHR ''0'') @ str_nat n"

definition num2 :: "char \<Rightarrow> char \<Rightarrow> nat" where
  "num2 a b = 10 * digit_val a + digit_val b"

definition num4 :: "char \<Rightarrow> char \<Rightarrow> char \<Rightarrow> char \<Rightarrow> nat" where
  "num4 a b c d = 1000 * digit_val a + 100 * digit_val b + 10 * digit_val c + digit_val d"

subsection \<open>\<^verbatim>\<open>datetime.datetime\<close>\<close>

text \<open>
  A \<^verbatim>\<open>datetime.datetime\<close> object without time zone. Microseconds are left out: no
  format string of the program prints them.
\<close>

record datetime =
  year :: nat
  month :: nat
  day :: nat
  hour :: nat
  minute :: nat
  second :: nat

definition is_leap :: "nat \<Rightarrow> bool" where
  "is_leap y = (y mod 4 = 0 \<and> (y mod 100 \<noteq> 0 \<or> y mod 400 = 0))"

definition days_in_month :: "nat \<Rightarrow> nat \<Rightarrow> nat" where
  "days_in_month y m =
     (if m = 2 then (if is_leap y then 29 else 28)
      else if m = 4 \<or> m = 6 \<or> m = 9 \<or> m = 11 then 30 else 31)"

text \<open>The invariant every Python \<^verbatim>\<open>datetime\<close> object satisfies.\<close>

definition valid_datetime :: "datetime \<Rightarrow> bool" where
  "valid_datetime d =
     (1 \<le> year d \<and> year d \<le> 9999 \<and> 1 \<le> month d \<and> month d \<le> 12 \<and>
      1 \<le> day d \<and> day d \<le> days_in_month (year d) (month d) \<and>
      hour d < 24 \<and> minute d < 60 \<and> second d < 60)"

text \<open>The constructor: Python raises \<^verbatim>\<open>ValueError\<close> on a field out of range.\<close>

definition mk_datetime :: "nat \<Rightarrow> nat \<Rightarrow> nat \<Rightarrow> nat \<Rightarrow> nat \<Rightarrow> nat \<Rightarrow> datetime option" where
  "mk_datetime y m d h mi s =
     (let r = \<lparr>year = y, month = m, day = d, hour = h, minute = mi, second = s\<rparr>
      in if valid_datetime r then Some r else None)"

text \<open>\<^verbatim>\<open>a.date() == b.date()\<close>.\<close>

definition same_date :: "datetime \<Rightarrow> datetime \<Rightarrow> bool" where
  "same_date a b = (year a = year b \<and> month a = month b \<and> day a = day b)"

text \<open>\<^verbatim>\<open>a < b\<close> and \<^verbatim>\<open>a >= b\<close> on datetimes: chronological order.\<close>

definition dt_less :: "datetime \<Rightarrow> datetime \<Rightarrow> bool" where
  "dt_less a b =
     (year a < year b \<or> (year a = year b \<and>
     (month a < month b \<or> (month a = month b \<and>
     (day a < day b \<or> (day a = day b \<and>
     (hour a < hour b \<or> (hour a = hour b \<and>
     (minute a < minute b \<or> (minute a = minute b \<and> second a < second b))))))))))"

definition dt_ge :: "datetime \<Rightarrow> datetime \<Rightarrow> bool" where
  "dt_ge a b = (\<not> dt_less a b)"

text \<open>
  \<^verbatim>\<open>datetime.datetime.combine(x, datetime.time.min)\<close>: the date of \<open>x\<close> at 00:00:00
  (the time of a datetime argument is ignored).
\<close>

definition combine_min :: "datetime \<Rightarrow> datetime" where
  "combine_min x = x\<lparr>hour := 0, minute := 0, second := 0\<rparr>"

text \<open>The day after a date, and the date \<open>n\<close> days later.\<close>

definition next_day :: "datetime \<Rightarrow> datetime" where
  "next_day x =
     (if day x < days_in_month (year x) (month x) then x\<lparr>day := day x + 1\<rparr>
      else if month x < 12 then x\<lparr>month := month x + 1, day := 1\<rparr>
      else x\<lparr>year := year x + 1, month := 1, day := 1\<rparr>)"

fun plus_days :: "datetime \<Rightarrow> nat \<Rightarrow> datetime" where
  "plus_days x 0 = x"
| "plus_days x (Suc n) = plus_days (next_day x) n"

text \<open>\<^verbatim>\<open>x + datetime.timedelta(hours=h, minutes=m)\<close>.\<close>

definition plus_timedelta :: "datetime \<Rightarrow> nat \<Rightarrow> nat \<Rightarrow> datetime" where
  "plus_timedelta x h m =
     (let total = (hour x + h) * 60 + minute x + m
      in (plus_days x (total div 1440))\<lparr>hour := total mod 1440 div 60, minute := total mod 60\<rparr>)"

text \<open>
  \<^verbatim>\<open>date.toordinal()\<close>: the proleptic Gregorian day number, 1 for 0001-01-01. The
  difference of two dates, \<^verbatim>\<open>(b - a).days\<close>, is the difference of their ordinals.
\<close>

definition days_before_year :: "nat \<Rightarrow> int" where
  "days_before_year y =
     (let y1 = int y - 1 in y1 * 365 + y1 div 4 - y1 div 100 + y1 div 400)"

definition days_before_month :: "nat \<Rightarrow> nat \<Rightarrow> int" where
  "days_before_month y m =
     int ([0, 0, 31, 59, 90, 120, 151, 181, 212, 243, 273, 304, 334] ! m) +
     (if m > 2 \<and> is_leap y then 1 else 0)"

definition toordinal :: "datetime \<Rightarrow> int" where
  "toordinal x = days_before_year (year x) + days_before_month (year x) (month x) + int (day x)"

definition days_between :: "datetime \<Rightarrow> datetime \<Rightarrow> int" where
  "days_between a b = toordinal b - toordinal a"

subsection \<open>Formatting\<close>

text \<open>
  \<^verbatim>\<open>strftime('%Y%m%d%H%M%S')\<close> and \<^verbatim>\<open>strftime('%Y-%m-%d')\<close>. The C library prints
  \<^verbatim>\<open>%Y\<close> without padding (glibc): the year 999 gives three characters and the year 50
  two, so that the first text has 14 characters, and the second 10, only from the year
  1000 on. The other fields are padded to two digits.
\<close>

definition strftime14 :: "datetime \<Rightarrow> string" where
  "strftime14 x = str_nat (year x) @ zfill 2 (month x) @ zfill 2 (day x) @
                  zfill 2 (hour x) @ zfill 2 (minute x) @ zfill 2 (second x)"

definition strftime_ymd :: "datetime \<Rightarrow> string" where
  "strftime_ymd x = str_nat (year x) @ ''-'' @ zfill 2 (month x) @ ''-'' @ zfill 2 (day x)"

text \<open>
  \<^verbatim>\<open>str(x)\<close> is \<^verbatim>\<open>x.isoformat(sep=' ')\<close>, which Python formats itself with the year
  padded to four digits.
\<close>

definition str_datetime :: "datetime \<Rightarrow> string" where
  "str_datetime x = zfill 4 (year x) @ ''-'' @ zfill 2 (month x) @ ''-'' @ zfill 2 (day x) @ '' '' @
                    zfill 2 (hour x) @ '':'' @ zfill 2 (minute x) @ '':'' @ zfill 2 (second x)"

subsection \<open>\<^verbatim>\<open>dateutil.parser.parse\<close>\<close>

text \<open>
  The free-form parser is a library outside the repository, and it reads far more texts
  than any list of layouts. The functions of \<^verbatim>\<open>gdelt/dateFuncs.py\<close> below therefore take
  the parser as a parameter \<open>P\<close>, a function from a text to a datetime, with \<open>None\<close>
  when the parser raises. What a statement needs of the parser it says as a hypothesis
  (\<open>dateutil_like\<close> below).

  \<open>parse_model\<close> is one such parser, used where a statement is evaluated at a concrete
  input. It reads a day \<^verbatim>\<open>YYYY-MM-DD\<close> or \<^verbatim>\<open>YYYY MM DD\<close>, followed by any number of
  clock fields \<^verbatim>\<open> HH:MM\<close> or \<^verbatim>\<open> HH:MM:SS\<close> (a later clock field replaces the earlier
  one; without a second of its own its second is 0), and the compact
  \<^verbatim>\<open>YYYYMMDDHHMMSS\<close>. A missing clock means 00:00:00. It rejects every other text, among them
  layouts that the library reads (\<^verbatim>\<open>20161019\<close>, \<^verbatim>\<open>2016 Oct 19\<close>); the one text
  below that relies on a rejection is \<^verbatim>\<open>not a date\<close>, which the library rejects too.
\<close>

fun parse_ymd :: "string \<Rightarrow> ((nat \<times> nat \<times> nat) \<times> string) option" where
  "parse_ymd (y1 # y2 # y3 # y4 # p # m1 # m2 # q # d1 # d2 # rest) =
     (if (p = CHR ''-'' \<or> p = CHR '' '') \<and> q = p \<and>
         list_all is_digit [y1, y2, y3, y4, m1, m2, d1, d2]
      then Some ((num4 y1 y2 y3 y4, num2 m1 m2, num2 d1 d2), rest) else None)"
| "parse_ymd _ = None"

fun parse_hms :: "string \<Rightarrow> nat \<times> nat \<times> nat \<Rightarrow> (nat \<times> nat \<times> nat) option" where
  "parse_hms [] t = Some t"
| "parse_hms (sp # h1 # h2 # c # m1 # m2 # rest) (h, m, s) =
     (if sp = CHR '' '' \<and> c = CHR '':'' \<and> list_all is_digit [h1, h2, m1, m2] then
        (case rest of
           c2 # s1 # s2 # rest' \<Rightarrow>
             if c2 = CHR '':'' \<and> is_digit s1 \<and> is_digit s2
             then parse_hms rest' (num2 h1 h2, num2 m1 m2, num2 s1 s2)
             else parse_hms rest (num2 h1 h2, num2 m1 m2, 0)
         | _ \<Rightarrow> parse_hms rest (num2 h1 h2, num2 m1 m2, 0))
      else None)"
| "parse_hms _ t = None"

fun parse_compact :: "string \<Rightarrow> datetime option" where
  "parse_compact [y1, y2, y3, y4, m1, m2, d1, d2, h1, h2, n1, n2, s1, s2] =
     (if list_all is_digit [y1, y2, y3, y4, m1, m2, d1, d2, h1, h2, n1, n2, s1, s2]
      then mk_datetime (num4 y1 y2 y3 y4) (num2 m1 m2) (num2 d1 d2)
                       (num2 h1 h2) (num2 n1 n2) (num2 s1 s2)
      else None)"
| "parse_compact _ = None"

definition parse_model :: "string \<Rightarrow> datetime option" where
  "parse_model s =
     (case parse_ymd s of
        Some ((y, m, d), rest) \<Rightarrow>
          (case parse_hms rest (0, 0, 0) of
             Some (h, mi, sec) \<Rightarrow> mk_datetime y m d h mi sec
           | None \<Rightarrow> None)
      | None \<Rightarrow> parse_compact s)"


text \<open>
  \<^verbatim>\<open>np.datetime64\<close> of a text in the layout \<^verbatim>\<open>%Y-%m-%d\<close>, as \<^verbatim>\<open>np.arange\<close> with
  \<^verbatim>\<open>dtype='datetime64[D]'\<close> reads its two bounds.
\<close>

definition datetime64_D :: "string \<Rightarrow> datetime option" where
  "datetime64_D s =
     (case parse_ymd s of
        Some ((y, m, d), rest) \<Rightarrow>
          (if rest = [] \<and> take 1 (drop 4 s) = ''-'' then mk_datetime y m d 0 0 0 else None)
      | None \<Rightarrow> None)"

text \<open>
  \<^verbatim>\<open>np.arange(a, b, dtype='datetime64[D]')\<close>: the days \<open>a\<close>, \<open>a + 1\<close>, ... strictly before
  \<open>b\<close>; there are \<open>b - a\<close> of them, none when \<open>b\<close> is not after \<open>a\<close>.
\<close>

definition arange_days :: "datetime \<Rightarrow> datetime \<Rightarrow> datetime list" where
  "arange_days a b = map (plus_days a) [0 ..< nat (days_between a b)]"

section \<open>Errors\<close>

text \<open>Every exception the two source files can raise is a value.\<close>

datatype error =
    ParserError         \<comment> \<open>whichever exception \<^verbatim>\<open>dateutil.parser.parse\<close> raises\<close>
  | NumpyValueError     \<comment> \<open>\<^verbatim>\<open>np.vectorize\<close> on an empty input, \<^verbatim>\<open>np.concatenate\<close> of nothing\<close>
  | AttributeError
  | TypeError
  | NameError
  | InputCheckError     \<comment> \<open>raised by \<^verbatim>\<open>dateInputCheck\<close>\<close>
  | MentionsV1Error     \<comment> \<open>\<^verbatim>\<open>BaseException('GDELT 1.0 does not have the "mentions" table ...')\<close>\<close>
  | TableV1Error        \<comment> \<open>\<^verbatim>\<open>Exception('You entered an incorrect table type for GDELT 1.0.')\<close>\<close>
  | FetchError string   \<comment> \<open>a failure of \<^verbatim>\<open>mp_worker\<close> on a URL\<close>
  | PandasError         \<comment> \<open>an exception raised inside a \<^verbatim>\<open>pandas\<close> call\<close>
  | NoDataError         \<comment> \<open>\<^verbatim>\<open>ValueError("This GDELT query returned no data. ...")\<close>\<close>

definition bind_err :: "error + 'a \<Rightarrow> ('a \<Rightarrow> error + 'b) \<Rightarrow> error + 'b" where
  "bind_err r f = (case r of Inl e \<Rightarrow> Inl e | Inr x \<Rightarrow> f x)"

text \<open>\<^verbatim>\<open>list(map(f, xs))\<close> where \<open>f\<close> may raise: the first exception ends the loop.\<close>

fun map_err :: "('a \<Rightarrow> error + 'b) \<Rightarrow> 'a list \<Rightarrow> error + 'b list" where
  "map_err f [] = Inr []"
| "map_err f (x # xs) =
     (case f x of
        Inl e \<Rightarrow> Inl e
      | Inr y \<Rightarrow> (case map_err f xs of Inl e \<Rightarrow> Inl e | Inr ys \<Rightarrow> Inr (y # ys)))"

text \<open>A call of the parser \<open>P\<close> at a place where its exception is not caught.\<close>

definition parse_err :: "(string \<Rightarrow> datetime option) \<Rightarrow> string \<Rightarrow> error + datetime" where
  "parse_err P s = (case P s of None \<Rightarrow> Inl ParserError | Some d \<Rightarrow> Inr d)"

section \<open>\<^verbatim>\<open>gdelt/dateFuncs.py\<close>\<close>

subsection \<open>\<^verbatim>\<open>parse_date\<close>, \<^verbatim>\<open>dateFormatter\<close>, \<^verbatim>\<open>dateRanger\<close>\<close>

text \<open>
  The input of \<^verbatim>\<open>dateRanger\<close> is a \<^verbatim>\<open>str\<close> or a \<^verbatim>\<open>list\<close> of \<^verbatim>\<open>str\<close>. Its result is
  a numpy array: a 0-dimensional array holding one datetime (\<open>Scalar\<close>), a
  0-dimensional array holding a text (\<open>Text\<close>), or a 1-dimensional array of
  datetimes (\<open>Days\<close>).
\<close>

datatype datespec = Single string | Many "string list"

datatype ranged = Scalar datetime | Text string | Days "datetime list"

text \<open>
  \<^verbatim>\<open>parse_date\<close> catches every exception of the parser and returns a message text
  in place of the date.
\<close>

definition parse_date :: "(string \<Rightarrow> datetime option) \<Rightarrow> string \<Rightarrow> ranged" where
  "parse_date P var =
     (case P var of
        Some d \<Rightarrow> Scalar d
      | None \<Rightarrow> Text ''You entered an incorrect date.  Check your date format.'')"

definition dateFormatter :: "(string \<Rightarrow> datetime option) \<Rightarrow> string \<Rightarrow> error + string" where
  "dateFormatter P datearray = bind_err (parse_err P datearray) (\<lambda>d. Inr (strftime_ymd d))"

text \<open>
  The list \<^verbatim>\<open>times\<close> built at the head of \<^verbatim>\<open>dateRanger\<close> is not used there and is
  left out. \<^verbatim>\<open>np.where\<close> evaluates both alternatives before it selects; since
  \<^verbatim>\<open>parse_date\<close> never raises this is not visible. \<^verbatim>\<open>np.vectorize\<close> raises
  \<^verbatim>\<open>ValueError\<close> on an input of size 0.
\<close>

definition dateRanger :: "(string \<Rightarrow> datetime option) \<Rightarrow> datespec \<Rightarrow> error + ranged" where
  "dateRanger P originalArray =
     (case originalArray of
        Single s \<Rightarrow> Inr (if length s = 0 then Text ''crazy'' else parse_date P s)
      | Many xs \<Rightarrow>
          if length xs = 1 then bind_err (parse_err P (concat xs)) (\<lambda>d. Inr (Scalar d))
          else if length xs > 2 then bind_err (map_err (parse_err P) xs) (\<lambda>ds. Inr (Days ds))
          else if xs = [] then Inl NumpyValueError
          else
            bind_err (map_err (dateFormatter P) xs) (\<lambda>converted.
            (case (datetime64_D (converted ! 0), datetime64_D (converted ! 1)) of
               (Some a, Some b) \<Rightarrow>
                 let dates = map combine_min (arange_days a b) in
                 bind_err (parse_err P (converted ! 1)) (\<lambda>e.
                   let adder = combine_min e in Inr (Days (dates @ [adder])))
             | _ \<Rightarrow> Inl NumpyValueError)))"

subsection \<open>\<^verbatim>\<open>gdeltRangeString\<close>\<close>

text \<open>
  The result is a \<^verbatim>\<open>str\<close> (\<open>Str\<close>), a numpy array of texts (\<open>Arr\<close>) or a Python
  list of texts (\<open>Lst\<close>).
\<close>

datatype converted = Str string | Arr "string list" | Lst "string list"

text \<open>
  The 96 clock texts \<^verbatim>\<open>'00:00'\<close>, \<^verbatim>\<open>'00:15'\<close>, ..., \<^verbatim>\<open>'23:45'\<close>, built by the two
  nested loops over \<^verbatim>\<open>map(str, range(0, 24))\<close> and \<^verbatim>\<open>map(str, range(00, 60, 15))\<close>.
\<close>

definition times_list :: "string list" where
  "times_list =
     concat (map (\<lambda>h. let l = str_nat h; l = (if h < 10 then ''0'' @ l else l) in
                    map (\<lambda>m. let k = str_nat m; k = (if k = ''0'' then ''00'' else k)
                             in l @ '':'' @ k) [0, 15, 30, 45])
                 [0 ..< 24])"

text \<open>
  The lambda of the three coverage branches:
  \<^verbatim>\<open>np.datetime64(parse(str(element) + " " + x)).tolist().strftime('%Y%m%d%H%M%S')\<close>.
\<close>

definition quarter_stamp ::
  "(string \<Rightarrow> datetime option) \<Rightarrow> datetime \<Rightarrow> string \<Rightarrow> error + string" where
  "quarter_stamp P element x =
     bind_err (parse_err P (str_datetime element @ '' '' @ x)) (\<lambda>d. Inr (strftime14 d))"

text \<open>The version 1 rule for one text (the nested \<^verbatim>\<open>np.where\<close>).\<close>

definition era_truncate :: "(string \<Rightarrow> datetime option) \<Rightarrow> nat \<Rightarrow> string \<Rightarrow> error + string" where
  "era_truncate P version x =
     bind_err (parse_err P x) (\<lambda>px.
     bind_err (parse_err P ''2013 04 01'') (\<lambda>c13.
     bind_err (parse_err P ''2006 01 01'') (\<lambda>c06.
       Inr (if dt_ge px c13 then take 8 (strftime14 px)
            else if dt_less px c06 \<and> version = 1 then take 4 (strftime14 px)
            else take 6 (strftime14 px)))))"

text \<open>
  \<^verbatim>\<open>gdeltRangeString(element, coverage, version)\<close>, with the parser \<open>P\<close>. The clock is
  read once: \<open>now\<close>
  stands for every \<^verbatim>\<open>datetime.datetime.now()\<close> of one call. \<^verbatim>\<open>list(set(xs))\<close> keeps
  one copy of each text in an order Python does not fix; the model keeps the order of
  \<open>remdups\<close>, and no statement below depends on it. The advisory
  \<^verbatim>\<open>warnings.warn\<close> does not change the value returned and is left out.
\<close>

definition gdeltRangeString ::
  "(string \<Rightarrow> datetime option) \<Rightarrow> datetime \<Rightarrow> ranged \<Rightarrow> bool \<Rightarrow> nat \<Rightarrow> error + converted" where
  "gdeltRangeString P now element coverage version =
     (let hour_now = hour now;
          multiplier = minute now div 15;
          multiple = 15 * multiplier;
          conditioner = multiplier + 1
      in
      bind_err
        (case element of
           Text s \<Rightarrow> Inl AttributeError
         | Scalar e \<Rightarrow>
             if same_date e now then
               if coverage \<and> version \<noteq> 1 then
                 bind_err (map_err (quarter_stamp P e) (take (hour_now * 4 + conditioner) times_list))
                          (\<lambda>ts. Inr (Arr ts))
               else Inr (Str (strftime14 (now\<lparr>minute := multiple, second := 0\<rparr>)))
             else
               if coverage \<and> version \<noteq> 1 then
                 bind_err (map_err (quarter_stamp P e) times_list) (\<lambda>ts. Inr (Arr ts))
               else Inr (Str (strftime14 (e\<lparr>minute := multiple, second := 0\<rparr>)))
         | Days es \<Rightarrow>
             let converted = Lst (map (\<lambda>x. strftime14 (plus_timedelta (combine_min x) 23 45)) es)
             in if coverage \<and> version \<noteq> 1 then
                  bind_err (map_err (\<lambda>i. map_err (quarter_stamp P i) times_list) es) (\<lambda>parts.
                    if parts = [] then Inl NumpyValueError else Inr (Arr (concat parts)))
                else Inr converted)
        (\<lambda>converted.
           if version = 1 then
             (case converted of
                Lst xs \<Rightarrow> bind_err (map_err (era_truncate P version) xs) (\<lambda>ys. Inr (Lst (remdups ys)))
              | Str x \<Rightarrow> bind_err (era_truncate P version x) (\<lambda>y. Inr (Str y))
              | Arr xs \<Rightarrow> Inl TypeError)
           else Inr converted))"


section \<open>\<^verbatim>\<open>gdelt/base.py\<close>\<close>

subsection \<open>Tables (\<^verbatim>\<open>pandas.DataFrame\<close>)\<close>

text \<open>
  A table has column labels, one row label (the index) per row, and rows of cells;
  \<open>None\<close> is the missing cell \<^verbatim>\<open>NaN\<close>. The operations are the \<^verbatim>\<open>pandas\<close> calls of
  \<^verbatim>\<open>Search\<close>; \<open>PandasError\<close> stands for whichever exception the call raises.
\<close>

type_synonym cell = "string option"

record frame =
  columns :: "string list"
  index :: "nat list"
  rows :: "cell list list"

text \<open>\<^verbatim>\<open>pd.concat(dfs)\<close>: the union of the columns, the rows and row labels appended.\<close>

definition realign :: "string list \<Rightarrow> frame \<Rightarrow> cell list list" where
  "realign cols f =
     map (\<lambda>r. map (\<lambda>c. case map_of (zip (columns f) r) c of Some v \<Rightarrow> v | None \<Rightarrow> None) cols)
         (rows f)"

definition pd_concat :: "frame list \<Rightarrow> error + frame" where
  "pd_concat fs =
     (if fs = [] then Inl PandasError
      else let cols = remdups (concat (map columns fs))
           in Inr \<lparr>columns = cols, index = concat (map index fs),
                   rows = concat (map (realign cols) fs)\<rparr>)"

text \<open>\<^verbatim>\<open>results.reset_index(drop=True, inplace=True)\<close>.\<close>

definition reset_index :: "frame \<Rightarrow> frame" where
  "reset_index f = f\<lparr>index := [0 ..< length (rows f)]\<rparr>"

text \<open>\<^verbatim>\<open>results.columns = cols\<close>: a length mismatch raises.\<close>

definition set_columns :: "string list \<Rightarrow> frame \<Rightarrow> error + frame" where
  "set_columns cols f =
     (if length cols = length (columns f) then Inr (f\<lparr>columns := cols\<rparr>) else Inl PandasError)"

text \<open>
  \<^verbatim>\<open>results.ix[0].values.tolist()\<close>: the cells of the row labelled 0, read as labels;
  no such row, or several, is an error here.
\<close>

definition ix0 :: "frame \<Rightarrow> error + string list" where
  "ix0 f =
     (case filter (\<lambda>(i, r). i = 0) (zip (index f) (rows f)) of
        [(i, r)] \<Rightarrow> Inr (map (\<lambda>c. case c of Some v \<Rightarrow> v | None \<Rightarrow> ''nan'') r)
      | _ \<Rightarrow> Inl PandasError)"

text \<open>\<^verbatim>\<open>results.drop([0], inplace=True)\<close>.\<close>

definition drop0 :: "frame \<Rightarrow> frame" where
  "drop0 f =
     (let kept = filter (\<lambda>(i, r). i \<noteq> 0) (zip (index f) (rows f))
      in f\<lparr>index := map fst kept, rows := map snd kept\<rparr>)"

text \<open>\<^verbatim>\<open>results.EventCode\<close>: the cells of the column of that name.\<close>

fun position :: "string \<Rightarrow> string list \<Rightarrow> nat option" where
  "position c [] = None"
| "position c (x # xs) = (if x = c then Some 0 else map_option Suc (position c xs))"

definition column_of :: "string \<Rightarrow> frame \<Rightarrow> error + cell list" where
  "column_of c f =
     (case position c (columns f) of
        None \<Rightarrow> Inl AttributeError
      | Some k \<Rightarrow> Inr (map (\<lambda>r. if k < length r then r ! k else None) (rows f)))"

text \<open>
  \<^verbatim>\<open>results.insert(loc, name, value=vals)\<close>: raises when the name is already a
  column and when \<open>loc\<close> is beyond the last column.
\<close>

definition insert_at :: "nat \<Rightarrow> 'a \<Rightarrow> 'a list \<Rightarrow> 'a list" where
  "insert_at k x xs = take k xs @ x # drop k xs"

definition insert_column :: "nat \<Rightarrow> string \<Rightarrow> cell list \<Rightarrow> frame \<Rightarrow> error + frame" where
  "insert_column loc name vals f =
     (if name \<in> set (columns f) \<or> loc > length (columns f) \<or> length vals \<noteq> length (rows f)
      then Inl PandasError
      else Inr (f\<lparr>columns := insert_at loc name (columns f),
                  rows := map (\<lambda>(v, r). insert_at loc v r) (zip vals (rows f))\<rparr>))"

subsection \<open>The collaborators of \<^verbatim>\<open>Search\<close>\<close>

text \<open>
  \<^verbatim>\<open>Search\<close> calls functions of modules that are not among the source files
  (\<^verbatim>\<open>inputChecks\<close>, \<^verbatim>\<open>vectorizingFuncs\<close>, \<^verbatim>\<open>parallel\<close>, \<^verbatim>\<open>getHeaders\<close>, \<^verbatim>\<open>helpers\<close>) and
  reads the clock. They are the fields of an environment, together with the parser and
  with what Python's object identity says of the \<^verbatim>\<open>table\<close> argument:
  \<^item> \<open>clock\<close>: the value of \<^verbatim>\<open>datetime.datetime.now()\<close>;
  \<^item> \<open>parser\<close>: \<^verbatim>\<open>dateutil.parser.parse\<close>;
  \<^item> \<open>table_is_literal\<close>: whether the \<^verbatim>\<open>table\<close> argument is the very object of the
    literal \<^verbatim>\<open>"mentions"\<close> of \<^verbatim>\<open>gdelt/base.py\<close> (CPython shares such a literal between
    modules; an equal text built at run time is another object);
  \<^item> \<open>dateInputCheck\<close>: the input check, \<open>Some e\<close> when it raises \<open>e\<close>;
  \<^item> \<open>urlBuilder\<close>: the URL of one timestamp for a version and a table;
  \<^item> \<open>mp_worker\<close>: the download of one URL, with the optional \<^verbatim>\<open>table\<close> keyword;
  \<^item> the four header lists and the code lookup \<open>cameos\<close>.
\<close>

record env =
  clock :: datetime
  parser :: "string \<Rightarrow> datetime option"
  table_is_literal :: bool
  dateInputCheck :: "datespec \<Rightarrow> nat \<Rightarrow> error option"
  urlBuilder :: "nat \<Rightarrow> string \<Rightarrow> string \<Rightarrow> string"
  mp_worker :: "string option \<Rightarrow> string \<Rightarrow> error + frame"
  events1Heads :: "string list"
  events2Heads :: "string list"
  mentionsHeads :: "string list"
  gkgHeads :: "string list"
  cameos :: "cell \<Rightarrow> error + cell"

text \<open>
  Modelled from the spec: \<^verbatim>\<open>urlBuilder\<close> of \<^verbatim>\<open>gdelt/vectorizingFuncs.py\<close> is missing.
  The spec's FileLocator is a pure function from a timestamp, a table kind and a version
  to a URL; on a list or array of timestamps it gives one URL for each.
\<close>

datatype urls = OneUrl string | UrlList "string list"

definition build_urls :: "env \<Rightarrow> nat \<Rightarrow> string \<Rightarrow> converted \<Rightarrow> urls" where
  "build_urls E version table c =
     (case c of
        Str s \<Rightarrow> OneUrl (urlBuilder E version table s)
      | Arr xs \<Rightarrow> UrlList (map (urlBuilder E version table) xs)
      | Lst xs \<Rightarrow> UrlList (map (urlBuilder E version table) xs))"

subsection \<open>\<^verbatim>\<open>gdelt.Search\<close>\<close>

text \<open>
  What one call of \<^verbatim>\<open>Search\<close> does: the value returned or the exception raised, the
  URLs handed to \<^verbatim>\<open>mp_worker\<close>, and whether a worker pool was started.
\<close>

record search_run =
  returned :: "error + frame"
  fetched :: "string list"
  pooled :: bool

definition raised :: "error \<Rightarrow> search_run" where
  "raised e = \<lparr>returned = Inl e, fetched = [], pooled = False\<rparr>"

text \<open>\<^verbatim>\<open>gdeltRangeString(dateRanger(date), version=v, coverage=c)\<close> and its partials.\<close>

definition ranger :: "env \<Rightarrow> nat \<Rightarrow> bool \<Rightarrow> datespec \<Rightarrow> error + converted" where
  "ranger E version coverage date =
     bind_err (dateRanger (parser E) date)
       (\<lambda>r. gdeltRangeString (parser E) (clock E) r coverage version)"

text \<open>
  Lines 186 to 267: the header lists and \<^verbatim>\<open>self.download_list\<close>. The test
  \<^verbatim>\<open>self.table is "mentions"\<close> of line 201 compares object identity: it holds when the
  argument is the object of the literal (\<open>table_is_literal\<close>, and then the texts are
  equal). A text equal to \<^verbatim>\<open>"mentions"\<close> that is another object fails the test, is
  neither \<^verbatim>\<open>'gkg'\<close> nor \<^verbatim>\<open>'events'\<close>, and reaches the \<^verbatim>\<open>Exception\<close> of line 228. Under
  version 2 a table name outside the three kinds leaves \<^verbatim>\<open>self.download_list\<close> unset,
  and reading it raises \<^verbatim>\<open>AttributeError\<close>.
\<close>

definition select_downloads ::
  "env \<Rightarrow> nat \<Rightarrow> datespec \<Rightarrow> string \<Rightarrow> bool \<Rightarrow> error + (string list \<times> urls)" where
  "select_downloads E version date table coverage =
     (if version = 1 then
        if table_is_literal E \<and> table = ''mentions'' then Inl MentionsV1Error
        else
          let columns = events1Heads E in
          if table = ''gkg'' then
            bind_err (ranger E 1 True date) (\<lambda>c. Inr (columns, build_urls E 1 ''gkg'' c))
          else if table = ''events'' \<or> table = [] then
            if coverage
            then bind_err (ranger E 1 True date) (\<lambda>c. Inr (columns, build_urls E 1 ''events'' c))
            else bind_err (ranger E 1 False date) (\<lambda>c. Inr (columns, build_urls E 1 ''events'' c))
          else Inl TableV1Error
      else if version = 2 then
        if table = ''events'' \<or> table = [] then
          bind_err (ranger E 2 coverage date) (\<lambda>c. Inr (events2Heads E, build_urls E 2 ''events'' c))
        else if table = ''gkg'' then
          bind_err (ranger E 2 coverage date) (\<lambda>c. Inr (gkgHeads E, build_urls E 2 ''gkg'' c))
        else if table = ''mentions'' then
          bind_err (ranger E 2 coverage date) (\<lambda>c. Inr (mentionsHeads E, build_urls E 2 ''mentions'' c))
        else Inl AttributeError
      else Inl AttributeError)"

text \<open>
  Lines 280 to 304, the download. When \<^verbatim>\<open>self.datesString\<close> is a \<^verbatim>\<open>str\<close> the one URL is
  fetched by a direct call. Otherwise the branch of the table \<^verbatim>\<open>'events'\<close> starts with
  the expression statement \<^verbatim>\<open>p\<close>, a name bound nowhere: \<^verbatim>\<open>NameError\<close>, before any
  pool exists. The other tables start a pool, map \<^verbatim>\<open>mp_worker\<close> over the list with
  \<^verbatim>\<open>imap_unordered\<close>, concatenate and reset the index. All URLs are handed to the
  pool; the batches are taken in the order of the list (Python delivers them in order of
  completion; nothing below depends on the order of the rows), and the first failure
  is raised.
\<close>

definition download :: "env \<Rightarrow> string \<Rightarrow> converted \<Rightarrow> urls \<Rightarrow> search_run" where
  "download E table datesString download_list =
     (case datesString of
        Str s \<Rightarrow>
          (case download_list of
             OneUrl u \<Rightarrow>
               \<lparr>returned = (if table = ''events'' then mp_worker E (Some ''events'') u
                            else mp_worker E None u),
                fetched = [u], pooled = False\<rparr>
           | UrlList us \<Rightarrow> raised TypeError)
      | _ \<Rightarrow>
          if table = ''events'' then raised NameError
          else
            (case download_list of
               OneUrl u \<Rightarrow> raised TypeError
             | UrlList us \<Rightarrow>
                 \<lparr>returned =
                    bind_err (map_err (mp_worker E None) us) (\<lambda>downloaded_dfs.
                    bind_err (pd_concat downloaded_dfs) (\<lambda>results. Inr (reset_index results))),
                  fetched = us, pooled = True\<rparr>))"

text \<open>Lines 306 to 325: column names, the test for an empty table, the description column.\<close>

definition finish :: "env \<Rightarrow> nat \<Rightarrow> string \<Rightarrow> string list \<Rightarrow> frame \<Rightarrow> error + frame" where
  "finish E version table cols results =
     bind_err
       (if table = ''gkg'' \<and> version = 1
        then bind_err (ix0 results) (\<lambda>labels.
             bind_err (set_columns labels results) (\<lambda>r. Inr (drop0 r)))
        else set_columns cols results)
       (\<lambda>results.
          if length (rows results) = 0 then Inl NoDataError
          else if table = ''events'' then
            bind_err (column_of ''EventCode'' results) (\<lambda>codes.
            bind_err (map_err (cameos E) codes) (\<lambda>cameoDescripts.
              insert_column 27 ''CAMEOCodeDescription'' cameoDescripts results))
          else Inr results)"

text \<open>
  \<^verbatim>\<open>Search(date, table, coverage)\<close> of an object built with \<^verbatim>\<open>version\<close>. The
  constructor sets \<^verbatim>\<open>self.baseUrl\<close> only for the versions 1 and 2, and \<^verbatim>\<open>Search\<close> reads
  it before it resolves the dates.
\<close>

definition Search :: "env \<Rightarrow> nat \<Rightarrow> datespec \<Rightarrow> string \<Rightarrow> bool \<Rightarrow> search_run" where
  "Search E version date table coverage =
     (case dateInputCheck E date version of
        Some e \<Rightarrow> raised e
      | None \<Rightarrow>
          if version \<noteq> 1 \<and> version \<noteq> 2 then raised AttributeError
          else
            (case ranger E version coverage date of
               Inl e \<Rightarrow> raised e
             | Inr datesString \<Rightarrow>
                 (case select_downloads E version date table coverage of
                    Inl e \<Rightarrow> raised e
                  | Inr (cols, download_list) \<Rightarrow>
                      let run = download E table datesString download_list in
                      (case returned run of
                         Inl e \<Rightarrow> run
                       | Inr results \<Rightarrow>
                           run\<lparr>returned := finish E version table cols results\<rparr>))))"


section \<open>Concrete inputs\<close>

text \<open>
  A clock reading, some days, and an environment whose collaborators are small and
  total: the parser is \<open>parse_model\<close>, the table argument is the object of the literal,
  every input check passes, a URL is the table name, a slash and the timestamp,
  and every download gives a table of one row (61 cells for the \<^verbatim>\<open>table='events'\<close>
  worker, 3 otherwise). The header of the version 2 event table is the column list of
  the class docstring in \<^verbatim>\<open>gdelt/base.py\<close>.
\<close>

definition now_ex :: datetime where
  "now_ex = \<lparr>year = 2016, month = 11, day = 1, hour = 10, minute = 37, second = 12\<rparr>"

definition oct19 :: datetime where
  "oct19 = \<lparr>year = 2016, month = 10, day = 19, hour = 0, minute = 0, second = 0\<rparr>"

definition oct31 :: datetime where
  "oct31 = \<lparr>year = 2016, month = 10, day = 31, hour = 0, minute = 0, second = 0\<rparr>"

definition nov01 :: datetime where
  "nov01 = \<lparr>year = 2016, month = 11, day = 1, hour = 0, minute = 0, second = 0\<rparr>"

definition events2_header :: "string list" where
  "events2_header =
     [''GLOBALEVENTID'', ''SQLDATE'', ''MonthYear'', ''Year'', ''FractionDate'',
      ''Actor1Code'', ''Actor1Name'', ''Actor1CountryCode'', ''Actor1KnownGroupCode'',
      ''Actor1EthnicCode'', ''Actor1Religion1Code'', ''Actor1Religion2Code'',
      ''Actor1Type1Code'', ''Actor1Type2Code'', ''Actor1Type3Code'', ''Actor2Code'',
      ''Actor2Name'', ''Actor2CountryCode'', ''Actor2KnownGroupCode'',
      ''Actor2EthnicCode'', ''Actor2Religion1Code'', ''Actor2Religion2Code'',
      ''Actor2Type1Code'', ''Actor2Type2Code'', ''Actor2Type3Code'', ''IsRootEvent'',
      ''EventCode'', ''EventBaseCode'', ''EventRootCode'', ''QuadClass'',
      ''GoldsteinScale'', ''NumMentions'', ''NumSources'', ''NumArticles'', ''AvgTone'',
      ''Actor1Geo_Type'', ''Actor1Geo_FullName'', ''Actor1Geo_CountryCode'',
      ''Actor1Geo_ADM1Code'', ''Actor1Geo_ADM2Code'', ''Actor1Geo_Lat'',
      ''Actor1Geo_Long'', ''Actor1Geo_FeatureID'', ''Actor2Geo_Type'',
      ''Actor2Geo_FullName'', ''Actor2Geo_CountryCode'', ''Actor2Geo_ADM1Code'',
      ''Actor2Geo_ADM2Code'', ''Actor2Geo_Lat'', ''Actor2Geo_Long'',
      ''Actor2Geo_FeatureID'', ''ActionGeo_Type'', ''ActionGeo_FullName'',
      ''ActionGeo_CountryCode'', ''ActionGeo_ADM1Code'', ''ActionGeo_ADM2Code'',
      ''ActionGeo_Lat'', ''ActionGeo_Long'', ''ActionGeo_FeatureID'', ''DATEADDED'',
      ''SOURCEURL'']"

definition gkg_header_ex :: "string list" where
  "gkg_header_ex = [''GKGRECORDID'', ''DATE'', ''SourceCommonName'']"

definition frame_ex :: "nat \<Rightarrow> frame" where
  "frame_ex n = \<lparr>columns = map str_nat [0 ..< n], index = [0],
                  rows = [map (\<lambda>i. Some (str_nat i)) [0 ..< n]]\<rparr>"

definition empty_frame_ex :: "nat \<Rightarrow> frame" where
  "empty_frame_ex n = \<lparr>columns = map str_nat [0 ..< n], index = [], rows = []\<rparr>"

definition env_ex :: env where
  "env_ex =
     \<lparr>clock = now_ex,
      parser = parse_model,
      table_is_literal = True,
      dateInputCheck = (\<lambda>date version. None),
      urlBuilder = (\<lambda>version table stamp. table @ ''/'' @ stamp),
      mp_worker = (\<lambda>table url. Inr (if table = Some ''events'' then frame_ex 61 else frame_ex 3)),
      events1Heads = events2_header,
      events2Heads = events2_header,
      mentionsHeads = gkg_header_ex,
      gkgHeads = gkg_header_ex,
      cameos = (\<lambda>code. Inr code)\<rparr>"

text \<open>The same environment with downloads that succeed and bring no rows.\<close>

definition env_empty_ex :: env where
  "env_empty_ex = env_ex\<lparr>mp_worker := (\<lambda>table url. Inr (empty_frame_ex 3))\<rparr>"

text \<open>The texts of a result, whatever its shape; none when the call raised.\<close>

definition stamps :: "error + converted \<Rightarrow> string list" where
  "stamps r = (case r of Inr (Str s) \<Rightarrow> [s] | Inr (Arr xs) \<Rightarrow> xs | Inr (Lst xs) \<Rightarrow> xs | Inl e \<Rightarrow> [])"


text \<open>
  The spec's words for claims about coverage: the text \<^verbatim>\<open>YYYYMMDDHHMMSS\<close> of the \<open>i\<close>-th
  15-minute boundary of the calendar day of \<open>e\<close>, that is the day at \<open>15 * i\<close> minutes
  after 00:00:00 (\<open>i = 0\<close> is 00:00:00 and \<open>i = 95\<close> is 23:45:00).
\<close>

definition spec_quarter :: "datetime \<Rightarrow> nat \<Rightarrow> string" where
  "spec_quarter e i =
     zfill 4 (year e) @ zfill 2 (month e) @ zfill 2 (day e) @
     zfill 2 (i div 4) @ zfill 2 (15 * (i mod 4)) @ ''00''"

text \<open>
  The spec's words for the version 1 rule: the file identifier of the day of \<open>e\<close> is
  \<^verbatim>\<open>YYYYMMDD\<close> on or after 2013-04-01, \<^verbatim>\<open>YYYY\<close> before 2006-01-01 and \<^verbatim>\<open>YYYYMM\<close>
  in between.
\<close>

definition spec_era_id :: "datetime \<Rightarrow> string" where
  "spec_era_id e =
     (if 2013 < year e \<or> (year e = 2013 \<and> 4 \<le> month e)
      then zfill 4 (year e) @ zfill 2 (month e) @ zfill 2 (day e)
      else if year e < 2006 then zfill 4 (year e)
      else zfill 4 (year e) @ zfill 2 (month e))"

text \<open>The two dates the version 1 rule compares with, and some days of each era.\<close>

definition april_2013 :: datetime where
  "april_2013 = \<lparr>year = 2013, month = 4, day = 1, hour = 0, minute = 0, second = 0\<rparr>"

definition january_2006 :: datetime where
  "january_2006 = \<lparr>year = 2006, month = 1, day = 1, hour = 0, minute = 0, second = 0\<rparr>"

definition may03_2010 :: datetime where
  "may03_2010 = \<lparr>year = 2010, month = 5, day = 3, hour = 0, minute = 0, second = 0\<rparr>"

definition may20_2010 :: datetime where
  "may20_2010 = \<lparr>year = 2010, month = 5, day = 20, hour = 0, minute = 0, second = 0\<rparr>"

definition jul04_2001 :: datetime where
  "jul04_2001 = \<lparr>year = 2001, month = 7, day = 4, hour = 0, minute = 0, second = 0\<rparr>"

text \<open>
  A calendar date: the part of the invariant of a datetime that concerns its day, with
  no upper bound on the year.
\<close>

definition valid_date :: "datetime \<Rightarrow> bool" where
  "valid_date d = (1 \<le> year d \<and> 1 \<le> month d \<and> month d \<le> 12 \<and>
                   1 \<le> day d \<and> day d \<le> days_in_month (year d) (month d))"

definition oct21 :: datetime where
  "oct21 = \<lparr>year = 2016, month = 10, day = 21, hour = 0, minute = 0, second = 0\<rparr>"

text \<open>The days of a result of \<^verbatim>\<open>dateRanger\<close>, whatever its shape; none when it raised.\<close>

definition days_of :: "error + ranged \<Rightarrow> datetime list" where
  "days_of r = (case r of Inr (Days ds) \<Rightarrow> ds | Inr (Scalar d) \<Rightarrow> [d] | _ \<Rightarrow> [])"

text \<open>
  What the statements below assume of the parser, on the texts the program itself builds:
  it returns datetime objects (which satisfy the invariant); it reads the 14 digits of
  \<^verbatim>\<open>%Y%m%d%H%M%S\<close> and the day text \<^verbatim>\<open>%Y-%m-%d\<close> of a year of four digits back; in
  \<^verbatim>\<open>str(x) + " " + "HH:MM"\<close>, for \<open>x\<close> with second 0, the later clock replaces the hour
  and the minute; and it reads the two constants of the version 1 rule. Each is a fact
  about \<^verbatim>\<open>dateutil\<close> that can be checked by running the library alone.
\<close>

definition dateutil_like :: "(string \<Rightarrow> datetime option) \<Rightarrow> bool" where
  "dateutil_like P =
     ((\<forall>s d. P s = Some d \<longrightarrow> valid_datetime d) \<and>
      (\<forall>d. valid_datetime d \<and> 1000 \<le> year d \<longrightarrow> P (strftime14 d) = Some d) \<and>
      (\<forall>d. valid_datetime d \<and> 1000 \<le> year d \<longrightarrow> P (strftime_ymd d) = Some (combine_min d)) \<and>
      (\<forall>d h m. valid_datetime d \<and> 1000 \<le> year d \<and> second d = 0 \<and> h < 24 \<and> m < 60 \<longrightarrow>
         P (str_datetime d @ '' '' @ zfill 2 h @ '':'' @ zfill 2 m) = Some (d\<lparr>hour := h, minute := m\<rparr>)) \<and>
      P ''2013 04 01'' = Some april_2013 \<and>
      P ''2006 01 01'' = Some january_2006)"


section \<open>Decimal text and the parser: round trips\<close>

lemma digit_val_digit: "k < 10 \<Longrightarrow> digit_val (digit k) = k"
  by (simp add: digit_val_def digit_def)

lemma is_digit_digit: "k < 10 \<Longrightarrow> is_digit (digit k)"
  by (simp add: is_digit_def digit_def)

lemma of_char_digit: "k < 10 \<Longrightarrow> (of_char (digit k) :: nat) = 48 + k"
  by (simp add: digit_def)

lemma digit_not_sep:
  assumes "k < 10"
  shows "digit k \<noteq> CHR ''-''" and "digit k \<noteq> CHR '' ''" and "digit k \<noteq> CHR '':''"
proof -
  have "(of_char (digit k) :: nat) \<noteq> of_char (CHR ''-'')"
       "(of_char (digit k) :: nat) \<noteq> of_char (CHR '' '')"
       "(of_char (digit k) :: nat) \<noteq> of_char (CHR '':'')"
    using assms by (simp_all add: of_char_digit)
  then show "digit k \<noteq> CHR ''-''" and "digit k \<noteq> CHR '' ''" and "digit k \<noteq> CHR '':''"
    by auto
qed

lemma digit_0: "digit 0 = CHR ''0''"
  by code_simp

lemma str_nat_small: "n < 10 \<Longrightarrow> str_nat n = [digit n]"
  by (simp add: str_nat.simps[of n])

lemma str_nat_two: "10 \<le> n \<Longrightarrow> n < 100 \<Longrightarrow> str_nat n = [digit (n div 10), digit (n mod 10)]"
  by (simp add: str_nat.simps[of n] str_nat_small)

lemma str_nat_three:
  "100 \<le> n \<Longrightarrow> n < 1000 \<Longrightarrow> str_nat n = [digit (n div 100), digit (n div 10 mod 10), digit (n mod 10)]"
  by (simp add: str_nat.simps[of n] str_nat_two div_mult2_eq[symmetric])

lemma str_nat_four:
  "1000 \<le> n \<Longrightarrow> n < 10000 \<Longrightarrow>
   str_nat n = [digit (n div 1000), digit (n div 100 mod 10), digit (n div 10 mod 10), digit (n mod 10)]"
  by (simp add: str_nat.simps[of n] str_nat_three div_mult2_eq[symmetric])

lemma zfill2: "n < 100 \<Longrightarrow> zfill 2 n = [digit (n div 10), digit (n mod 10)]"
  by (cases "n < 10") (simp_all add: zfill_def str_nat_small str_nat_two digit_0)

lemma zfill4:
  assumes "n < 10000"
  shows "zfill 4 n = [digit (n div 1000), digit (n div 100 mod 10), digit (n div 10 mod 10), digit (n mod 10)]"
proof -
  consider "n < 10" | "10 \<le> n" "n < 100" | "100 \<le> n" "n < 1000" | "1000 \<le> n"
    by linarith
  then show ?thesis
  proof cases
    case 1 then show ?thesis by (simp add: zfill_def str_nat_small digit_0 numeral_3_eq_3)
  next
    case 2 then show ?thesis by (simp add: zfill_def str_nat_two digit_0 numeral_2_eq_2)
  next
    case 3 then show ?thesis by (simp add: zfill_def str_nat_three digit_0)
  next
    case 4 then show ?thesis using assms by (simp add: zfill_def str_nat_four)
  qed
qed



lemma num2_digit: "a < 10 \<Longrightarrow> b < 10 \<Longrightarrow> num2 (digit a) (digit b) = 10 * a + b"
  by (simp add: num2_def digit_val_digit)

lemma num2_zfill: "n < 100 \<Longrightarrow> num2 (digit (n div 10)) (digit (n mod 10)) = n"
  by (simp add: num2_digit)

lemma num4_zfill:
  assumes "n < 10000"
  shows "num4 (digit (n div 1000)) (digit (n div 100 mod 10)) (digit (n div 10 mod 10)) (digit (n mod 10)) = n"
proof -
  have a: "n = 10 * (n div 10) + n mod 10" by simp
  have b: "n div 10 = 10 * (n div 100) + n div 10 mod 10"
    using div_mult2_eq[of n 10 10] by simp
  have c: "n div 100 = 10 * (n div 1000) + n div 100 mod 10"
    using div_mult2_eq[of n 100 10] by simp
  have d: "n div 1000 < 10" using assms by simp
  have "num4 (digit (n div 1000)) (digit (n div 100 mod 10)) (digit (n div 10 mod 10)) (digit (n mod 10))
        = 1000 * (n div 1000) + 100 * (n div 100 mod 10) + 10 * (n div 10 mod 10) + n mod 10"
    using d by (simp add: num4_def digit_val_digit)
  also have "\<dots> = n" using a b c by linarith
  finally show ?thesis .
qed

lemma str_year: "1000 \<le> y \<Longrightarrow> y < 10000 \<Longrightarrow> str_nat y = zfill 4 y"
  by (simp add: str_nat_four zfill4)

lemma valid_fields:
  assumes "valid_datetime d"
  shows "year d < 10000" "month d < 100" "day d < 100" "hour d < 100" "minute d < 100" "second d < 100"
  using assms by (auto simp: valid_datetime_def days_in_month_def split: if_splits)

text \<open>From the year 1000 on the two \<^verbatim>\<open>strftime\<close> texts have a year of four digits.\<close>

lemma strftime14_padded:
  assumes "valid_datetime x" "1000 \<le> year x"
  shows "strftime14 x = zfill 4 (year x) @ zfill 2 (month x) @ zfill 2 (day x) @
                        zfill 2 (hour x) @ zfill 2 (minute x) @ zfill 2 (second x)"
  using valid_fields(1)[OF assms(1)] assms(2) by (simp add: strftime14_def str_year)

lemma strftime_ymd_padded:
  assumes "valid_datetime x" "1000 \<le> year x"
  shows "strftime_ymd x = zfill 4 (year x) @ ''-'' @ zfill 2 (month x) @ ''-'' @ zfill 2 (day x)"
  using valid_fields(1)[OF assms(1)] assms(2) by (simp add: strftime_ymd_def str_year)

lemma mk_datetime_valid:
  "valid_datetime d \<Longrightarrow>
   mk_datetime (year d) (month d) (day d) (hour d) (minute d) (second d) = Some d"
  by (simp add: mk_datetime_def valid_datetime_def)

lemma mk_datetime_Some: "mk_datetime y m d h mi s = Some r \<Longrightarrow> valid_datetime r"
  by (auto simp: mk_datetime_def Let_def split: if_splits)

subsection \<open>The concrete parser\<close>

lemma parse_compact_valid: "parse_compact s = Some d \<Longrightarrow> valid_datetime d"
  by (erule parse_compact.elims) (auto split: if_splits dest: mk_datetime_Some mk_datetime_Some[OF sym])

lemma parse_model_valid: "parse_model s = Some d \<Longrightarrow> valid_datetime d"
  by (auto simp: parse_model_def split: option.splits prod.splits dest: mk_datetime_Some parse_compact_valid)

lemma parse_model_strftime14:
  assumes "valid_datetime d" "1000 \<le> year d"
  shows "parse_model (strftime14 d) = Some d"
proof -
  note f = valid_fields[OF assms(1)]
  have lt: "year d div 1000 < 10" "month d div 10 < 10" "day d div 10 < 10" "hour d div 10 < 10"
    "minute d div 10 < 10" "second d div 10 < 10"
    using f by simp_all
  have "parse_ymd (strftime14 d) = None"
    using f lt by (simp add: strftime14_padded[OF assms] zfill2 zfill4 digit_not_sep)
  moreover have "parse_compact (strftime14 d) = Some d"
    using f lt assms
    by (simp add: strftime14_padded[OF assms] zfill2 zfill4 is_digit_digit num2_zfill num4_zfill
        mk_datetime_valid)
  ultimately show ?thesis by (simp add: parse_model_def)
qed

lemma parse_model_str_clock:
  assumes "valid_datetime d" "second d = 0" "h < 24" "m < 60"
  shows "parse_model (str_datetime d @ '' '' @ zfill 2 h @ '':'' @ zfill 2 m)
         = Some (d\<lparr>hour := h, minute := m\<rparr>)"
proof -
  note f = valid_fields[OF assms(1)]
  have lt: "year d div 1000 < 10" "month d div 10 < 10" "day d div 10 < 10" "hour d div 10 < 10"
    "minute d div 10 < 10" "second d div 10 < 10" "h div 10 < 10" "m div 10 < 10" "h < 100" "m < 100"
    using f assms by simp_all
  have v: "valid_datetime (d\<lparr>hour := h, minute := m\<rparr>)"
    using assms by (simp add: valid_datetime_def)
  show ?thesis
    using f lt mk_datetime_valid[OF v] assms(2)
    by (simp add: parse_model_def str_datetime_def zfill2 zfill4 is_digit_digit
        num2_zfill num4_zfill digit_not_sep)
qed

lemma datetime64_D_strftime_ymd:
  assumes "valid_datetime d" "1000 \<le> year d"
  shows "datetime64_D (strftime_ymd d) = Some (combine_min d)"
proof -
  note f = valid_fields[OF assms(1)]
  have lt: "year d div 1000 < 10" "month d div 10 < 10" "day d div 10 < 10"
    using f by simp_all
  have v: "valid_datetime (combine_min d)"
    using assms by (simp add: valid_datetime_def combine_min_def)
  show ?thesis
    using f lt mk_datetime_valid[OF v]
    by (simp add: datetime64_D_def strftime_ymd_padded[OF assms] zfill2 zfill4 is_digit_digit
        num2_zfill num4_zfill digit_not_sep combine_min_def)
qed

lemma parse_model_strftime_ymd:
  assumes "valid_datetime d" "1000 \<le> year d"
  shows "parse_model (strftime_ymd d) = Some (combine_min d)"
proof -
  note f = valid_fields[OF assms(1)]
  have lt: "year d div 1000 < 10" "month d div 10 < 10" "day d div 10 < 10"
    using f by simp_all
  have v: "valid_datetime (combine_min d)"
    using assms by (simp add: valid_datetime_def combine_min_def)
  show ?thesis
    using f lt mk_datetime_valid[OF v]
    by (simp add: parse_model_def strftime_ymd_padded[OF assms] zfill2 zfill4 is_digit_digit
        num2_zfill num4_zfill digit_not_sep combine_min_def)
qed

lemma parse_model_cutoffs:
  "parse_model ''2013 04 01'' = Some april_2013"
  "parse_model ''2006 01 01'' = Some january_2006"
  by code_simp+

text \<open>The concrete parser meets the assumptions made of the library.\<close>

lemma dateutil_like_parse_model: "dateutil_like parse_model"
  unfolding dateutil_like_def
proof (intro conjI allI impI)
  fix s d assume "parse_model s = Some d"
  then show "valid_datetime d" by (rule parse_model_valid)
next
  fix d assume "valid_datetime d \<and> 1000 \<le> year d"
  then show "parse_model (strftime14 d) = Some d" by (simp add: parse_model_strftime14)
next
  fix d assume "valid_datetime d \<and> 1000 \<le> year d"
  then show "parse_model (strftime_ymd d) = Some (combine_min d)"
    by (simp add: parse_model_strftime_ymd)
next
  fix d :: datetime and h m :: nat
  assume "valid_datetime d \<and> 1000 \<le> year d \<and> second d = 0 \<and> h < 24 \<and> m < 60"
  then show "parse_model (str_datetime d @ '' '' @ zfill 2 h @ '':'' @ zfill 2 m)
             = Some (d\<lparr>hour := h, minute := m\<rparr>)"
    using parse_model_str_clock[of d h m] by blast
next
  show "parse_model ''2013 04 01'' = Some april_2013" by (rule parse_model_cutoffs)
next
  show "parse_model ''2006 01 01'' = Some january_2006" by (rule parse_model_cutoffs)
qed

subsection \<open>Any parser that reads as the library does\<close>

lemma dateutil_likeD:
  assumes "dateutil_like P"
  shows "P s = Some d \<Longrightarrow> valid_datetime d"
    and "valid_datetime d \<Longrightarrow> 1000 \<le> year d \<Longrightarrow> P (strftime14 d) = Some d"
    and "valid_datetime d \<Longrightarrow> 1000 \<le> year d \<Longrightarrow> P (strftime_ymd d) = Some (combine_min d)"
    and "valid_datetime d \<Longrightarrow> 1000 \<le> year d \<Longrightarrow> second d = 0 \<Longrightarrow> h < 24 \<Longrightarrow> m < 60 \<Longrightarrow>
         P (str_datetime d @ '' '' @ zfill 2 h @ '':'' @ zfill 2 m) = Some (d\<lparr>hour := h, minute := m\<rparr>)"
    and "P ''2013 04 01'' = Some april_2013"
    and "P ''2006 01 01'' = Some january_2006"
  using assms unfolding dateutil_like_def by blast+

lemma times_eq: "times_list = map (\<lambda>i. zfill 2 (i div 4) @ '':'' @ zfill 2 (15 * (i mod 4))) [0 ..< 96]"
  by code_simp

lemma map_err_map:
  "(\<And>x. x \<in> set xs \<Longrightarrow> f (g x) = Inr (h x)) \<Longrightarrow> map_err f (map g xs) = Inr (map h xs)"
  by (induction xs) simp_all

lemma map_err_Inr:
  "(\<And>x. x \<in> set xs \<Longrightarrow> f x = Inr (h x)) \<Longrightarrow> map_err f xs = Inr (map h xs)"
  by (induction xs) simp_all

text \<open>The timestamp of the \<open>i\<close>-th quarter hour of the day of \<open>e\<close>.\<close>

lemma quarter_stamp_times:
  assumes "dateutil_like P" "valid_datetime e" "1000 \<le> year e" "second e = 0" "i < 96"
  shows "quarter_stamp P e (zfill 2 (i div 4) @ '':'' @ zfill 2 (15 * (i mod 4)))
         = Inr (strftime14 (e\<lparr>hour := i div 4, minute := 15 * (i mod 4)\<rparr>))"
proof -
  have "i div 4 < 24" "15 * (i mod 4) < 60" using assms(5) by auto
  from dateutil_likeD(4)[OF assms(1-4) this] show ?thesis
    by (simp add: quarter_stamp_def parse_err_def bind_err_def)
qed

lemma expand_day:
  assumes "dateutil_like P" "valid_datetime e" "1000 \<le> year e" "second e = 0" "n \<le> 96"
  shows "map_err (quarter_stamp P e) (take n times_list)
         = Inr (map (\<lambda>i. strftime14 (e\<lparr>hour := i div 4, minute := 15 * (i mod 4)\<rparr>)) [0 ..< n])"
proof -
  have "take n times_list = map (\<lambda>i. zfill 2 (i div 4) @ '':'' @ zfill 2 (15 * (i mod 4))) [0 ..< n]"
    using assms(5) by (simp add: times_eq take_map)
  moreover have "map_err (quarter_stamp P e) (map (\<lambda>i. zfill 2 (i div 4) @ '':'' @ zfill 2 (15 * (i mod 4))) [0 ..< n])
     = Inr (map (\<lambda>i. strftime14 (e\<lparr>hour := i div 4, minute := 15 * (i mod 4)\<rparr>)) [0 ..< n])"
    using assms by (intro map_err_map quarter_stamp_times) auto
  ultimately show ?thesis by simp
qed


section \<open>Version 1 ignores the coverage flag\<close>

lemma gdeltRangeString_v1_coverage:
  "gdeltRangeString P now element True 1 = gdeltRangeString P now element False 1"
  by (cases element) (simp_all add: gdeltRangeString_def Let_def)

lemma ranger_v1_coverage: "ranger E 1 True date = ranger E 1 False date"
  by (simp only: ranger_def gdeltRangeString_v1_coverage)

lemma select_downloads_v1_coverage:
  "select_downloads E 1 date table True = select_downloads E 1 date table False"
  by (simp only: select_downloads_def ranger_v1_coverage if_cancel simp_thms if_True)

text \<open>
  Claim C10. Under version 1 the coverage flag has no effect: \<^verbatim>\<open>gdeltRangeString\<close>
  returns the same value for \<^verbatim>\<open>coverage=True\<close> and \<^verbatim>\<open>coverage=False\<close> on every input
  and with every parser (every guard of the 15-minute expansion also requires a version
  other than 1), so the timestamps resolved from a date spec are the same, and a whole call
  of \<^verbatim>\<open>Search\<close> (the files fetched included) is the same.
\<close>

theorem coverage_flag_ignored_v1:
  "gdeltRangeString P now element True 1 = gdeltRangeString P now element False 1 \<and>
   ranger E 1 True date = ranger E 1 False date \<and>
   Search E 1 date table True = Search E 1 date table False"
  by (simp only: Search_def gdeltRangeString_v1_coverage ranger_v1_coverage select_downloads_v1_coverage)

section \<open>What \<^verbatim>\<open>dateRanger\<close> does with an empty or unreadable date\<close>

text \<open>
  Claim C8 says that an empty input and a single unreadable date text make the
  normalizer raise. For a \<^verbatim>\<open>str\<close> input it does not: the empty text gives the value
  \<^verbatim>\<open>'crazy'\<close>, no exception.
\<close>

theorem dateRanger_empty_counterexample:
  "\<not> isl (dateRanger parse_model (Single [])) \<and>
   dateRanger parse_model (Single []) = Inr (Text ''crazy'')"
  by (simp add: dateRanger_def)

text \<open>
  Claim C8, amended. For the empty text \<^verbatim>\<open>dateRanger\<close> returns the text \<^verbatim>\<open>'crazy'\<close>,
  and for a non-empty text the parser rejects it returns the message of
  \<^verbatim>\<open>parse_date\<close>, both as values in place of the days. A list of one text the parser
  rejects raises the parser's error, and the empty list raises the error of
  \<^verbatim>\<open>np.vectorize\<close>. This holds of every parser \<open>P\<close>.
\<close>

theorem dateRanger_fallback_values:
  "dateRanger P (Single []) = Inr (Text ''crazy'') \<and>
   (s \<noteq> [] \<and> P s = None \<longrightarrow>
      dateRanger P (Single s) = Inr (Text ''You entered an incorrect date.  Check your date format.'')) \<and>
   (P s = None \<longrightarrow> dateRanger P (Many [s]) = Inl ParserError) \<and>
   dateRanger P (Many []) = Inl NumpyValueError"
  by (simp add: dateRanger_def parse_date_def parse_err_def bind_err_def)

theorem dateRanger_fallback_values_witness:
  "''not a date'' \<noteq> [] \<and> parse_model ''not a date'' = None \<and>
   dateRanger parse_model (Single ''not a date'')
     = Inr (Text ''You entered an incorrect date.  Check your date format.'') \<and>
   dateRanger parse_model (Many [''not a date'']) = Inl ParserError"
proof -
  have h: "parse_model ''not a date'' = None" by code_simp
  show ?thesis using h dateRanger_fallback_values[of parse_model "''not a date''"] by simp
qed


section \<open>Version 2 with coverage: the quarter hours of a day\<close>

lemma length_times_list: "length times_list = 96"
  by (simp add: times_eq)

lemma zfill2_0: "zfill 2 0 = ''00''"
  by code_simp

lemma strftime14_quarter:
  assumes "valid_datetime e" "1000 \<le> year e" "second e = 0"
  shows "strftime14 (e\<lparr>hour := i div 4, minute := 15 * (i mod 4)\<rparr>) = spec_quarter e i"
proof -
  have "year e < 10000" using assms(1) by (simp add: valid_datetime_def)
  then have "str_nat (year e) = zfill 4 (year e)" using assms(2) by (simp add: str_year)
  then show ?thesis using assms(3) by (simp add: strftime14_def spec_quarter_def zfill2_0)
qed

lemma expand_day_spec:
  assumes "dateutil_like P" "valid_datetime e" "1000 \<le> year e" "second e = 0" "n \<le> 96"
  shows "map_err (quarter_stamp P e) (take n times_list) = Inr (map (spec_quarter e) [0 ..< n])"
  using expand_day[OF assms] assms(2-4) by (simp add: strftime14_quarter)

lemma expand_whole_day:
  assumes "dateutil_like P" "valid_datetime e" "1000 \<le> year e" "second e = 0"
  shows "map_err (quarter_stamp P e) times_list = Inr (map (spec_quarter e) [0 ..< 96])"
  using expand_day_spec[OF assms, of 96] by (simp add: length_times_list)

lemma scalar_coverage_other_day:
  assumes "dateutil_like P" "valid_datetime e" "1000 \<le> year e" "second e = 0" "\<not> same_date e now"
  shows "gdeltRangeString P now (Scalar e) True 2 = Inr (Arr (map (spec_quarter e) [0 ..< 96]))"
  using assms(5) by (simp add: gdeltRangeString_def Let_def expand_whole_day[OF assms(1-4)] bind_err_def)

lemma scalar_coverage_today:
  assumes "dateutil_like P" "valid_datetime e" "1000 \<le> year e" "second e = 0"
    "same_date e now" "hour now < 24" "minute now < 60"
  shows "gdeltRangeString P now (Scalar e) True 2
         = Inr (Arr (map (spec_quarter e) [0 ..< 4 * hour now + minute now div 15 + 1]))"
proof -
  have "hour now * 4 + (minute now div 15 + 1) \<le> 96" using assms(6,7) by simp
  from expand_day_spec[OF assms(1-4) this] assms(5) show ?thesis
    by (simp add: gdeltRangeString_def Let_def bind_err_def mult.commute)
qed

lemma days_coverage:
  assumes "dateutil_like P" "\<forall>e \<in> set es. valid_datetime e \<and> 1000 \<le> year e \<and> second e = 0" "es \<noteq> []"
  shows "gdeltRangeString P now (Days es) True 2
         = Inr (Arr (concat (map (\<lambda>e. map (spec_quarter e) [0 ..< 96]) es)))"
proof -
  have "map_err (\<lambda>i. map_err (quarter_stamp P i) times_list) es
        = Inr (map (\<lambda>e. map (spec_quarter e) [0 ..< 96]) es)"
    using assms(2) by (intro map_err_Inr) (simp add: expand_whole_day[OF assms(1)])
  then show ?thesis using assms(3)
    by (simp add: gdeltRangeString_def Let_def bind_err_def)
qed

lemma nth_concat_uniform:
  "\<forall>xs \<in> set xss. length xs = n \<Longrightarrow> j < length xss \<Longrightarrow> i < n \<Longrightarrow>
   concat xss ! (n * j + i) = xss ! j ! i"
proof (induction xss arbitrary: j)
  case Nil
  then show ?case by simp
next
  case (Cons xs xss)
  show ?case
  proof (cases j)
    case 0
    with Cons.prems show ?thesis by (simp add: nth_append)
  next
    case (Suc k)
    with Cons.prems have "concat xss ! (n * k + i) = xss ! k ! i"
      by (intro Cons.IH) auto
    with Suc Cons.prems show ?thesis by (simp add: nth_append)
  qed
qed

lemma length_concat_uniform:
  "\<forall>xs \<in> set xss. length xs = n \<Longrightarrow> length (concat xss) = n * length xss"
  by (induction xss) simp_all

lemma days_coverage_nth:
  assumes "dateutil_like P" "\<forall>e \<in> set es. valid_datetime e \<and> 1000 \<le> year e \<and> second e = 0" "es \<noteq> []"
  shows "\<exists>ts. gdeltRangeString P now (Days es) True 2 = Inr (Arr ts) \<and>
              length ts = 96 * length es \<and>
              (\<forall>j < length es. \<forall>i < 96. ts ! (96 * j + i) = spec_quarter (es ! j) i)"
proof -
  let ?xss = "map (\<lambda>e. map (spec_quarter e) [0 ..< 96]) es"
  have u: "\<forall>xs \<in> set ?xss. length xs = 96" by auto
  have "length (concat ?xss) = 96 * length es"
    using length_concat_uniform[OF u] by simp
  moreover have "\<forall>j < length es. \<forall>i < 96. concat ?xss ! (96 * j + i) = spec_quarter (es ! j) i"
    using nth_concat_uniform[OF u] by simp
  ultimately show ?thesis using days_coverage[OF assms] by blast
qed

lemma example_days_valid:
  "valid_datetime oct19 \<and> 1000 \<le> year oct19 \<and> second oct19 = 0"
  "valid_datetime oct31 \<and> 1000 \<le> year oct31 \<and> second oct31 = 0"
  "valid_datetime nov01 \<and> 1000 \<le> year nov01 \<and> second nov01 = 0"
  "valid_datetime now_ex \<and> 1000 \<le> year now_ex"
  by (simp_all add: oct19_def oct31_def nov01_def now_ex_def valid_datetime_def days_in_month_def)

text \<open>
  Claim C2. Version 2 with coverage, for a parser that reads as \<^verbatim>\<open>dateutil\<close> does and a
  day (a datetime with second 0) of a year of four digits: a single day that is not the
  current day resolves to 96 texts, and a list of days to 96 texts for each day in the
  order of the list. The \<open>i\<close>-th text of a day is \<^verbatim>\<open>YYYYMMDD\<close> of that day followed by the
  clock at \<open>15 * i\<close> minutes after midnight: the first is 00:00:00, the last 23:45:00,
  and consecutive texts are 15 minutes apart.
\<close>

theorem coverage_expands_day_to_96:
  assumes "dateutil_like P"
  shows
  "(valid_datetime e \<and> 1000 \<le> year e \<and> second e = 0 \<and> \<not> same_date e now \<longrightarrow>
      (\<exists>ts. gdeltRangeString P now (Scalar e) True 2 = Inr (Arr ts) \<and> length ts = 96 \<and>
            (\<forall>i < 96. ts ! i = spec_quarter e i))) \<and>
   ((\<forall>e \<in> set es. valid_datetime e \<and> 1000 \<le> year e \<and> second e = 0) \<and> es \<noteq> [] \<longrightarrow>
      (\<exists>ts. gdeltRangeString P now (Days es) True 2 = Inr (Arr ts) \<and> length ts = 96 * length es \<and>
            (\<forall>j < length es. \<forall>i < 96. ts ! (96 * j + i) = spec_quarter (es ! j) i)))"
proof (intro conjI impI)
  assume "valid_datetime e \<and> 1000 \<le> year e \<and> second e = 0 \<and> \<not> same_date e now"
  then have "gdeltRangeString P now (Scalar e) True 2 = Inr (Arr (map (spec_quarter e) [0 ..< 96]))"
    using assms by (simp add: scalar_coverage_other_day)
  then show "\<exists>ts. gdeltRangeString P now (Scalar e) True 2 = Inr (Arr ts) \<and> length ts = 96 \<and>
            (\<forall>i < 96. ts ! i = spec_quarter e i)"
    by simp
next
  assume "(\<forall>e \<in> set es. valid_datetime e \<and> 1000 \<le> year e \<and> second e = 0) \<and> es \<noteq> []"
  then show "\<exists>ts. gdeltRangeString P now (Days es) True 2 = Inr (Arr ts) \<and> length ts = 96 * length es \<and>
            (\<forall>j < length es. \<forall>i < 96. ts ! (96 * j + i) = spec_quarter (es ! j) i)"
    using days_coverage_nth[OF assms] by blast
qed

theorem coverage_expands_day_to_96_witness:
  "dateutil_like parse_model \<and>
   valid_datetime oct19 \<and> 1000 \<le> year oct19 \<and> second oct19 = 0 \<and> \<not> same_date oct19 now_ex \<and>
   length (stamps (gdeltRangeString parse_model now_ex (Scalar oct19) True 2)) = 96 \<and>
   stamps (gdeltRangeString parse_model now_ex (Scalar oct19) True 2) ! 0 = ''20161019000000'' \<and>
   stamps (gdeltRangeString parse_model now_ex (Scalar oct19) True 2) ! 1 = ''20161019001500'' \<and>
   stamps (gdeltRangeString parse_model now_ex (Scalar oct19) True 2) ! 95 = ''20161019234500'' \<and>
   length (stamps (gdeltRangeString parse_model now_ex (Days [oct19, oct31]) True 2)) = 192 \<and>
   stamps (gdeltRangeString parse_model now_ex (Days [oct19, oct31]) True 2) ! 96 = ''20161031000000''"
proof -
  have h: "valid_datetime oct19 \<and> 1000 \<le> year oct19 \<and> second oct19 = 0 \<and> \<not> same_date oct19 now_ex"
    using example_days_valid(1) by (simp add: oct19_def now_ex_def same_date_def)
  have h2: "(\<forall>e \<in> set [oct19, oct31]. valid_datetime e \<and> 1000 \<le> year e \<and> second e = 0) \<and> [oct19, oct31] \<noteq> []"
    using example_days_valid(1,2) by simp
  from coverage_expands_day_to_96[OF dateutil_like_parse_model, of oct19 now_ex "[oct19, oct31]"] h h2
  obtain ts us where
    ts: "gdeltRangeString parse_model now_ex (Scalar oct19) True 2 = Inr (Arr ts)" "length ts = 96"
        "\<forall>i < 96. ts ! i = spec_quarter oct19 i"
    and us: "gdeltRangeString parse_model now_ex (Days [oct19, oct31]) True 2 = Inr (Arr us)"
        "length us = 96 * length [oct19, oct31]"
        "\<forall>j < length [oct19, oct31]. \<forall>i < 96. us ! (96 * j + i) = spec_quarter ([oct19, oct31] ! j) i"
    by blast
  have q: "spec_quarter oct19 0 = ''20161019000000''" "spec_quarter oct19 (Suc 0) = ''20161019001500''"
    "spec_quarter oct19 95 = ''20161019234500''" "spec_quarter oct31 0 = ''20161031000000''"
    by code_simp+
  have "us ! (96 * 1 + 0) = spec_quarter ([oct19, oct31] ! 1) 0"
    using us(3)[rule_format, of 1 0] by simp
  then have u96: "us ! 96 = ''20161031000000''" by (simp add: q)
  show ?thesis using h ts us(1,2) u96 dateutil_like_parse_model by (simp add: stamps_def q)
qed

subsection \<open>Coverage on the current day\<close>

lemma quarter_of_now:
  assumes "same_date e now" "minute now < 60" "valid_datetime now" "1000 \<le> year now"
  shows "spec_quarter e (4 * hour now + minute now div 15)
         = strftime14 (now\<lparr>minute := 15 * (minute now div 15), second := 0\<rparr>)"
proof -
  have "minute now div 15 < 4" using assms(2) by simp
  then have "(4 * hour now + minute now div 15) div 4 = hour now"
       "(4 * hour now + minute now div 15) mod 4 = minute now div 15"
    by simp_all
  moreover have "year now < 10000" using assms(3) by (simp add: valid_datetime_def)
  then have "str_nat (year now) = zfill 4 (year now)" using assms(4) by (simp add: str_year)
  ultimately show ?thesis using assms(1)
    by (simp add: spec_quarter_def strftime14_def same_date_def zfill2_0)
qed

text \<open>
  A single day that is the current day stops at the quarter hour of the clock: the last
  of its texts is the clock with the minute floored to 15 and second 0.
\<close>

lemma scalar_coverage_today_last:
  assumes "dateutil_like P" "valid_datetime e" "1000 \<le> year e" "second e = 0"
    "same_date e now" "valid_datetime now"
  shows "\<exists>ts. gdeltRangeString P now (Scalar e) True 2 = Inr (Arr ts) \<and>
            length ts = 4 * hour now + minute now div 15 + 1 \<and>
            (\<forall>i < length ts. ts ! i = spec_quarter e i) \<and>
            last ts = strftime14 (now\<lparr>minute := 15 * (minute now div 15), second := 0\<rparr>)"
proof -
  let ?n = "4 * hour now + minute now div 15 + 1"
  let ?ts = "map (spec_quarter e) [0 ..< ?n]"
  from assms(6) have b: "hour now < 24" "minute now < 60" by (simp_all add: valid_datetime_def)
  have y: "1000 \<le> year now" using assms(3,5) by (simp add: same_date_def)
  have "gdeltRangeString P now (Scalar e) True 2 = Inr (Arr ?ts)"
    using assms b by (simp add: scalar_coverage_today)
  moreover have "length ?ts = ?n" by simp
  moreover have "\<forall>i < length ?ts. ?ts ! i = spec_quarter e i" by (simp del: upt_Suc)
  moreover have "last ?ts = strftime14 (now\<lparr>minute := 15 * (minute now div 15), second := 0\<rparr>)"
    using quarter_of_now[OF assms(5) b(2) assms(6) y] by (simp add: last_map)
  ultimately show ?thesis by blast
qed


section \<open>Version 1: truncation by era\<close>

lemma length_zfill: "n < 100 \<Longrightarrow> length (zfill 2 n) = 2" "y < 10000 \<Longrightarrow> length (zfill 4 y) = 4"
  by (simp_all add: zfill2 zfill4)

lemma take_strftime14:
  assumes "valid_datetime d" "1000 \<le> year d"
  shows "take 8 (strftime14 d) = zfill 4 (year d) @ zfill 2 (month d) @ zfill 2 (day d)"
    and "take 4 (strftime14 d) = zfill 4 (year d)"
    and "take 6 (strftime14 d) = zfill 4 (year d) @ zfill 2 (month d)"
  using valid_fields[OF assms(1)] by (simp_all add: strftime14_padded[OF assms] length_zfill)

lemma dt_less_cutoffs:
  assumes "valid_datetime d"
  shows "dt_less d april_2013 \<longleftrightarrow> \<not> (2013 < year d \<or> (year d = 2013 \<and> 4 \<le> month d))"
    and "dt_less d january_2006 \<longleftrightarrow> year d < 2006"
  using assms by (auto simp: dt_less_def valid_datetime_def april_2013_def january_2006_def)

lemma era_truncate_strftime14:
  assumes "dateutil_like P" "valid_datetime d" "1000 \<le> year d"
  shows "era_truncate P 1 (strftime14 d) = Inr (spec_era_id d)"
  using assms(2,3)
  by (simp add: era_truncate_def parse_err_def bind_err_def dateutil_likeD(2)[OF assms]
      dateutil_likeD(5,6)[OF assms(1)]
      dt_ge_def dt_less_cutoffs take_strftime14 spec_era_id_def)

lemma spec_era_id_date:
  "spec_era_id (e\<lparr>hour := h\<rparr>) = spec_era_id e"
  "spec_era_id (e\<lparr>minute := m\<rparr>) = spec_era_id e"
  "spec_era_id (e\<lparr>second := s\<rparr>) = spec_era_id e"
  by (simp_all add: spec_era_id_def)

lemma spec_era_id_same_date: "same_date a b \<Longrightarrow> spec_era_id a = spec_era_id b"
  by (simp add: spec_era_id_def same_date_def)

lemma end_of_day: "plus_timedelta (combine_min x) 23 45 = x\<lparr>hour := 23, minute := 45, second := 0\<rparr>"
  by (simp add: plus_timedelta_def combine_min_def Let_def)

lemma length_spec_era_id:
  assumes "valid_datetime e"
  shows "length (spec_era_id e) =
           (if 2013 < year e \<or> (year e = 2013 \<and> 4 \<le> month e) then 8
            else if year e < 2006 then 4 else 6)"
  using valid_fields[OF assms] by (simp add: spec_era_id_def length_zfill)

lemma scalar_v1:
  assumes "dateutil_like P" "valid_datetime e" "1000 \<le> year e" "valid_datetime now"
  shows "gdeltRangeString P now (Scalar e) coverage 1 = Inr (Str (spec_era_id e))"
proof -
  have "minute now < 60" using assms(4) by (simp add: valid_datetime_def)
  then have m: "15 * (minute now div 15) < 60" by arith
  have v1: "valid_datetime (now\<lparr>minute := 15 * (minute now div 15), second := 0\<rparr>)"
    using assms(4) m by (simp add: valid_datetime_def)
  have v2: "valid_datetime (e\<lparr>minute := 15 * (minute now div 15), second := 0\<rparr>)"
    using assms(2) m by (simp add: valid_datetime_def)
  have y2: "1000 \<le> year (e\<lparr>minute := 15 * (minute now div 15), second := 0\<rparr>)"
    using assms(3) by simp
  show ?thesis
  proof (cases "same_date e now")
    case True
    then have y1: "1000 \<le> year (now\<lparr>minute := 15 * (minute now div 15), second := 0\<rparr>)"
      using assms(3) by (simp add: same_date_def)
    from True show ?thesis
      using era_truncate_strftime14[OF assms(1) v1 y1] spec_era_id_same_date[OF True]
      by (simp add: gdeltRangeString_def Let_def bind_err_def spec_era_id_date)
  next
    case False
    then show ?thesis
      using era_truncate_strftime14[OF assms(1) v2 y2]
      by (simp add: gdeltRangeString_def Let_def bind_err_def spec_era_id_date)
  qed
qed

lemma days_v1:
  assumes "dateutil_like P" "\<forall>e \<in> set es. valid_datetime e \<and> 1000 \<le> year e"
  shows "gdeltRangeString P now (Days es) coverage 1 = Inr (Lst (remdups (map spec_era_id es)))"
proof -
  have "map_err (era_truncate P 1) (map (\<lambda>x. strftime14 (x\<lparr>hour := 23, minute := 45, second := 0\<rparr>)) es)
        = Inr (map spec_era_id es)"
  proof (intro map_err_map)
    fix x assume "x \<in> set es"
    with assms(2) have "valid_datetime (x\<lparr>hour := 23, minute := 45, second := 0\<rparr>)"
      "1000 \<le> year (x\<lparr>hour := 23, minute := 45, second := 0\<rparr>)"
      by (simp_all add: valid_datetime_def)
    from era_truncate_strftime14[OF assms(1) this]
    show "era_truncate P 1 (strftime14 (x\<lparr>hour := 23, minute := 45, second := 0\<rparr>)) = Inr (spec_era_id x)"
      by (simp add: spec_era_id_date)
  qed
  then show ?thesis
    by (simp add: gdeltRangeString_def Let_def bind_err_def end_of_day)
qed

text \<open>
  Claim C4. Under version 1, with a parser that reads as \<^verbatim>\<open>dateutil\<close> does and for days of
  a year of four digits, the text resolved for a day is cut to 8 characters
  (\<^verbatim>\<open>YYYYMMDD\<close>) when the day is on or after 2013-04-01, to 4 (\<^verbatim>\<open>YYYY\<close>) when it is
  before 2006-01-01 and to 6 (\<^verbatim>\<open>YYYYMM\<close>) in between; for a list of days the cut texts
  are returned without duplicates. This holds for both values of the coverage flag.
\<close>

theorem version1_era_truncation:
  assumes "dateutil_like P"
  shows
  "(valid_datetime e \<longrightarrow>
      length (spec_era_id e) =
        (if 2013 < year e \<or> (year e = 2013 \<and> 4 \<le> month e) then 8
         else if year e < 2006 then 4 else 6)) \<and>
   (valid_datetime e \<and> 1000 \<le> year e \<and> valid_datetime now \<longrightarrow>
      gdeltRangeString P now (Scalar e) coverage 1 = Inr (Str (spec_era_id e))) \<and>
   ((\<forall>e \<in> set es. valid_datetime e \<and> 1000 \<le> year e) \<longrightarrow>
      (\<exists>ys. gdeltRangeString P now (Days es) coverage 1 = Inr (Lst ys) \<and>
            distinct ys \<and> set ys = spec_era_id ` set es))"
proof (intro conjI impI)
  assume "valid_datetime e"
  then show "length (spec_era_id e) =
        (if 2013 < year e \<or> (year e = 2013 \<and> 4 \<le> month e) then 8
         else if year e < 2006 then 4 else 6)"
    by (rule length_spec_era_id)
next
  assume "valid_datetime e \<and> 1000 \<le> year e \<and> valid_datetime now"
  then show "gdeltRangeString P now (Scalar e) coverage 1 = Inr (Str (spec_era_id e))"
    using scalar_v1[OF assms] by blast
next
  assume "\<forall>e \<in> set es. valid_datetime e \<and> 1000 \<le> year e"
  from days_v1[OF assms this]
  have "gdeltRangeString P now (Days es) coverage 1 = Inr (Lst (remdups (map spec_era_id es)))" .
  moreover have "distinct (remdups (map spec_era_id es))" by simp
  moreover have "set (remdups (map spec_era_id es)) = spec_era_id ` set es" by simp
  ultimately show "\<exists>ys. gdeltRangeString P now (Days es) coverage 1 = Inr (Lst ys) \<and>
            distinct ys \<and> set ys = spec_era_id ` set es"
    by blast
qed

theorem version1_era_truncation_witness:
  "dateutil_like parse_model \<and>
   valid_datetime oct19 \<and> 1000 \<le> year oct19 \<and> valid_datetime now_ex \<and>
   valid_datetime may03_2010 \<and> 1000 \<le> year may03_2010 \<and>
   valid_datetime may20_2010 \<and> 1000 \<le> year may20_2010 \<and>
   valid_datetime jul04_2001 \<and> 1000 \<le> year jul04_2001 \<and>
   gdeltRangeString parse_model now_ex (Scalar oct19) False 1 = Inr (Str ''20161019'') \<and>
   gdeltRangeString parse_model now_ex (Scalar may03_2010) True 1 = Inr (Str ''201005'') \<and>
   gdeltRangeString parse_model now_ex (Scalar jul04_2001) False 1 = Inr (Str ''2001'') \<and>
   distinct (stamps (gdeltRangeString parse_model now_ex (Days [may03_2010, may20_2010, jul04_2001, oct19]) False 1)) \<and>
   set (stamps (gdeltRangeString parse_model now_ex (Days [may03_2010, may20_2010, jul04_2001, oct19]) False 1))
     = {''201005'', ''2001'', ''20161019''}"
proof -
  note P = dateutil_like_parse_model
  have v: "valid_datetime oct19" "valid_datetime now_ex" "valid_datetime may03_2010"
    "valid_datetime may20_2010" "valid_datetime jul04_2001"
    by (simp_all add: oct19_def now_ex_def may03_2010_def may20_2010_def jul04_2001_def
        valid_datetime_def days_in_month_def)
  have y: "1000 \<le> year oct19" "1000 \<le> year may03_2010" "1000 \<le> year may20_2010"
    "1000 \<le> year jul04_2001"
    by (simp_all add: oct19_def may03_2010_def may20_2010_def jul04_2001_def)
  have q: "spec_era_id oct19 = ''20161019''" "spec_era_id may03_2010 = ''201005''"
    "spec_era_id may20_2010 = ''201005''" "spec_era_id jul04_2001 = ''2001''"
    by code_simp+
  have a: "gdeltRangeString parse_model now_ex (Scalar oct19) False 1 = Inr (Str (spec_era_id oct19))"
    using version1_era_truncation[OF P, of oct19 now_ex False "[]"] v y by blast
  have b: "gdeltRangeString parse_model now_ex (Scalar may03_2010) True 1 = Inr (Str (spec_era_id may03_2010))"
    using version1_era_truncation[OF P, of may03_2010 now_ex True "[]"] v y by blast
  have c: "gdeltRangeString parse_model now_ex (Scalar jul04_2001) False 1 = Inr (Str (spec_era_id jul04_2001))"
    using version1_era_truncation[OF P, of jul04_2001 now_ex False "[]"] v y by blast
  obtain ys where ys:
    "gdeltRangeString parse_model now_ex (Days [may03_2010, may20_2010, jul04_2001, oct19]) False 1 = Inr (Lst ys)"
    "distinct ys" "set ys = spec_era_id ` set [may03_2010, may20_2010, jul04_2001, oct19]"
    using version1_era_truncation[OF P, of oct19 now_ex False "[may03_2010, may20_2010, jul04_2001, oct19]"] v y
    by auto
  have "set ys = {''201005'', ''2001'', ''20161019''}"
    using ys(3) by (simp add: q)
  then show ?thesis using P v y a b c ys(1,2) by (simp add: q stamps_def del: One_nat_def)
qed


section \<open>Calendar arithmetic and the two-element range\<close>

lemma valid_datetime_date: "valid_datetime d \<Longrightarrow> valid_date d"
  by (simp add: valid_datetime_def valid_date_def)

lemma div_pred:
  fixes z k :: int
  assumes "0 < k"
  shows "z div k = (z - 1) div k + (if z mod k = 0 then 1 else 0)"
proof (cases "z mod k = 0")
  case True
  have e: "k * (z div k) = z" using True mult_div_mod_eq[of k z] by simp
  have "z - 1 = k * (z div k - 1) + (k - 1)"
    using e by (simp add: algebra_simps)
  then have "(z - 1) div k = z div k - 1"
    using assms by (intro int_div_pos_eq[where r = "k - 1"]) simp_all
  with True show ?thesis by simp
next
  case False
  have "0 \<le> z mod k" using assms by simp
  with False have r: "0 < z mod k" by simp
  have e: "z - 1 = k * (z div k) + (z mod k - 1)" by simp
  have lt: "z mod k - 1 < k" using pos_mod_bound[OF assms, of z] by linarith
  have ge: "0 \<le> z mod k - 1" using r by linarith
  have "(z - 1) div k = z div k"
    by (rule int_div_pos_eq[OF e ge lt])
  with False show ?thesis by simp
qed

lemma mod_chain:
  fixes z :: int
  shows "z mod 100 = 0 \<Longrightarrow> z mod 4 = 0" and "z mod 400 = 0 \<Longrightarrow> z mod 100 = 0"
proof -
  have a: "(4::int) dvd 100" "(100::int) dvd 400" by simp_all
  show "z mod 100 = 0 \<Longrightarrow> z mod 4 = 0"
    using dvd_trans[OF a(1), of z] by (simp add: mod_eq_0_iff_dvd)
  show "z mod 400 = 0 \<Longrightarrow> z mod 100 = 0"
    using dvd_trans[OF a(2), of z] by (simp add: mod_eq_0_iff_dvd)
qed

lemma leap_step:
  fixes z :: int
  shows "z div 4 - z div 100 + z div 400
       = (z - 1) div 4 - (z - 1) div 100 + (z - 1) div 400
         + (if z mod 4 = 0 \<and> (z mod 100 \<noteq> 0 \<or> z mod 400 = 0) then 1 else 0)"
proof -
  have a: "z div 4 = (z - 1) div 4 + (if z mod 4 = 0 then 1 else 0)"
    by (rule div_pred) simp
  have b: "z div 100 = (z - 1) div 100 + (if z mod 100 = 0 then 1 else 0)"
    by (rule div_pred) simp
  have c: "z div 400 = (z - 1) div 400 + (if z mod 400 = 0 then 1 else 0)"
    by (rule div_pred) simp
  show ?thesis
  proof (cases "z mod 400 = 0")
    case True
    with mod_chain[of z] have "z mod 100 = 0" "z mod 4 = 0" by simp_all
    with True show ?thesis unfolding a b c by simp
  next
    case n400: False
    show ?thesis
    proof (cases "z mod 100 = 0")
      case True
      with mod_chain(1)[of z] have "z mod 4 = 0" by simp
      with True n400 show ?thesis unfolding a b c by simp
    next
      case False
      with n400 show ?thesis unfolding a b c by simp
    qed
  qed
qed

lemma is_leap_int:
  "is_leap y \<longleftrightarrow> (int y mod 4 = 0 \<and> (int y mod 100 \<noteq> 0 \<or> int y mod 400 = 0))"
proof -
  have "int y mod 4 = int (y mod 4)" "int y mod 100 = int (y mod 100)" "int y mod 400 = int (y mod 400)"
    by (simp_all add: zmod_int)
  then show ?thesis by (simp add: is_leap_def)
qed

lemma days_before_year_Suc:
  "days_before_year (y + 1) = days_before_year y + 365 + (if is_leap y then 1 else 0)"
proof -
  have a: "days_before_year (y + 1) = int y * 365 + (int y div 4 - int y div 100 + int y div 400)"
    by (simp add: days_before_year_def Let_def)
  have b: "days_before_year y
           = (int y - 1) * 365 + ((int y - 1) div 4 - (int y - 1) div 100 + (int y - 1) div 400)"
    by (simp add: days_before_year_def Let_def)
  have c: "int y * 365 = (int y - 1) * 365 + 365" by (simp add: algebra_simps)
  show ?thesis
    unfolding a b c leap_step[of "int y"] is_leap_int by simp
qed

lemma days_before_month_Suc:
  assumes "1 \<le> m" "m < 12"
  shows "days_before_month y (m + 1) = days_before_month y m + int (days_in_month y m)"
proof -
  from assms have "m = 1 \<or> m = 2 \<or> m = 3 \<or> m = 4 \<or> m = 5 \<or> m = 6 \<or> m = 7 \<or> m = 8 \<or>
      m = 9 \<or> m = 10 \<or> m = 11"
    by arith
  then show ?thesis
    by (auto simp: days_before_month_def days_in_month_def)
qed

lemma toordinal_next_day:
  assumes "valid_date d"
  shows "toordinal (next_day d) = toordinal d + 1"
proof -
  have "day d < days_in_month (year d) (month d) \<or>
        (day d = days_in_month (year d) (month d) \<and> month d < 12) \<or>
        (day d = days_in_month (year d) (month d) \<and> month d = 12)"
    using assms unfolding valid_date_def by arith
  then consider (a) "day d < days_in_month (year d) (month d)"
    | (b) "day d = days_in_month (year d) (month d)" "month d < 12"
    | (c) "day d = days_in_month (year d) (month d)" "month d = 12"
    by blast
  then show ?thesis
  proof cases
    case a
    then show ?thesis by (simp add: next_day_def toordinal_def)
  next
    case b
    with assms have "days_before_month (year d) (month d + 1)
        = days_before_month (year d) (month d) + int (days_in_month (year d) (month d))"
      by (intro days_before_month_Suc) (auto simp: valid_date_def)
    with b show ?thesis by (simp add: next_day_def toordinal_def)
  next
    case c
    have "days_before_year (year d + 1)
        = days_before_year (year d) + 365 + (if is_leap (year d) then 1 else 0)"
      by (rule days_before_year_Suc)
    with c show ?thesis
      by (simp add: next_day_def toordinal_def days_before_month_def days_in_month_def)
  qed
qed

lemma valid_date_next_day: "valid_date d \<Longrightarrow> valid_date (next_day d)"
  by (auto simp: valid_date_def next_day_def days_in_month_def)

lemma plus_days_ordinal:
  "valid_date d \<Longrightarrow> valid_date (plus_days d n) \<and> toordinal (plus_days d n) = toordinal d + int n"
proof (induction n arbitrary: d)
  case 0
  then show ?case by simp
next
  case (Suc n)
  from Suc.prems have "valid_date (next_day d)" by (rule valid_date_next_day)
  from Suc.IH[OF this] Suc.prems show ?case by (simp add: toordinal_next_day)
qed

lemma next_day_clock:
  "hour (next_day d) = hour d" "minute (next_day d) = minute d" "second (next_day d) = second d"
  by (simp_all add: next_day_def)

lemma toordinal_combine_min: "toordinal (combine_min d) = toordinal d"
  by (simp add: toordinal_def combine_min_def)

lemma valid_date_combine_min: "valid_date (combine_min d) = valid_date d"
  by (simp add: valid_date_def combine_min_def)

lemma combine_min_idem: "combine_min (combine_min d) = combine_min d"
  by (simp add: combine_min_def)

lemma arange_days_props:
  assumes "valid_date a"
  shows "length (arange_days a b) = nat (days_between a b)"
    and "i < nat (days_between a b) \<Longrightarrow> toordinal (arange_days a b ! i) = toordinal a + int i"
    and "\<forall>d \<in> set (arange_days a b). valid_date d"
  using plus_days_ordinal[OF assms] by (auto simp: arange_days_def)

lemma map_err_dateFormatter2:
  assumes "P a = Some da" "P b = Some db"
  shows "map_err (dateFormatter P) [a, b] = Inr [strftime_ymd da, strftime_ymd db]"
  using assms by (simp add: dateFormatter_def parse_err_def bind_err_def)

lemma dateRanger_range:
  assumes "dateutil_like P" "P a = Some da" "P b = Some db" "1000 \<le> year da" "1000 \<le> year db"
  shows "dateRanger P (Many [a, b])
         = Inr (Days (map combine_min (arange_days (combine_min da) (combine_min db)) @ [combine_min db]))"
proof -
  have va: "valid_datetime da" and vb: "valid_datetime db"
    using assms(2,3) dateutil_likeD(1)[OF assms(1)] by blast+
  show ?thesis
    using map_err_dateFormatter2[OF assms(2,3)]
      datetime64_D_strftime_ymd[OF va assms(4)] datetime64_D_strftime_ymd[OF vb assms(5)]
      dateutil_likeD(3)[OF assms(1) vb assms(5)]
    by (simp add: dateRanger_def bind_err_def parse_err_def combine_min_idem)
qed

lemma dateRanger_one: "P s = Some d \<Longrightarrow> dateRanger P (Many [s]) = Inr (Scalar d)"
  by (simp add: dateRanger_def parse_err_def bind_err_def)

text \<open>
  Claim C3. For a parser that reads as \<^verbatim>\<open>dateutil\<close> does and two texts \<open>a\<close> and \<open>b\<close> that
  it reads as datetimes \<open>da\<close> and \<open>db\<close> of years of four digits, with the day of \<open>db\<close> not
  before the day of \<open>da\<close>: \<^verbatim>\<open>dateRanger\<close> returns the days from \<open>da\<close> to \<open>db\<close>, both
  included. Their day numbers are the consecutive numbers from that of \<open>da\<close> to that of
  \<open>db\<close>, so there are \<open>(db - da).days + 1\<close> of them; the last is the day of \<open>db\<close>, which
  the code appends to the range that excludes it; each is a calendar date at 00:00:00.
\<close>

theorem range_includes_both_endpoints:
  assumes "dateutil_like P" "P a = Some da" "P b = Some db"
    "1000 \<le> year da" "1000 \<le> year db" "0 \<le> days_between da db"
  shows "\<exists>ds. dateRanger P (Many [a, b]) = Inr (Days ds) \<and>
              length ds = nat (days_between da db) + 1 \<and>
              map toordinal ds = [toordinal da .. toordinal db] \<and>
              last ds = combine_min db \<and>
              (\<forall>d \<in> set ds. valid_date d \<and> hour d = 0 \<and> minute d = 0 \<and> second d = 0)"
proof -
  let ?a = "combine_min da" and ?b = "combine_min db"
  let ?ds = "map combine_min (arange_days ?a ?b) @ [?b]"
  have "valid_datetime da" "valid_datetime db"
    using assms(2,3) dateutil_likeD(1)[OF assms(1)] by blast+
  then have va: "valid_date ?a" and vb: "valid_date ?b"
    by (auto dest!: valid_datetime_date simp: valid_date_combine_min)
  have n: "days_between ?a ?b = days_between da db"
    by (simp add: days_between_def toordinal_combine_min)
  note ar = arange_days_props[OF va, where b = "combine_min db"]
  have len: "length ?ds = nat (days_between da db) + 1"
    using ar(1) n by simp
  have ord: "map toordinal ?ds = [toordinal da .. toordinal db]"
  proof (rule nth_equalityI)
    show "length (map toordinal ?ds) = length [toordinal da .. toordinal db]"
      using len assms(6) by (simp add: days_between_def)
  next
    fix i assume "i < length (map toordinal ?ds)"
    then have i: "i < nat (days_between da db) + 1" using len by simp
    have le: "toordinal da + int i \<le> toordinal db"
      using i assms(6) by (simp add: days_between_def)
    have "toordinal (?ds ! i) = toordinal da + int i"
    proof (cases "i < nat (days_between da db)")
      case True
      then show ?thesis using ar(1,2) n
        by (simp add: nth_append toordinal_combine_min)
    next
      case False
      with i have "i = nat (days_between da db)" by simp
      then show ?thesis using ar(1) n assms(6)
        by (simp add: nth_append toordinal_combine_min days_between_def)
    qed
    moreover have "map toordinal ?ds ! i = toordinal (?ds ! i)"
      using i len by (intro nth_map) simp
    moreover have "[toordinal da .. toordinal db] ! i = toordinal da + int i"
      using le by (rule nth_upto)
    ultimately show "map toordinal ?ds ! i = [toordinal da .. toordinal db] ! i"
      by (simp only:)
  qed
  have all: "\<forall>d \<in> set ?ds. valid_date d \<and> hour d = 0 \<and> minute d = 0 \<and> second d = 0"
    using ar(3) vb by (auto simp: valid_date_combine_min) (simp_all add: combine_min_def)
  have "last ?ds = ?b" by simp
  with dateRanger_range[OF assms(1-5)] len ord all show ?thesis by blast
qed

lemma parse_model_examples:
  "parse_model ''2016-10-19'' = Some oct19"
  "parse_model ''2016-10-21'' = Some oct21"
  "parse_model ''2016-10-31'' = Some oct31"
  "parse_model ''2016-11-01'' = Some nov01"
  by code_simp+

theorem range_includes_both_endpoints_witness:
  "dateutil_like parse_model \<and>
   parse_model ''2016-10-19'' = Some oct19 \<and> parse_model ''2016-10-21'' = Some oct21 \<and>
   1000 \<le> year oct19 \<and> 1000 \<le> year oct21 \<and>
   0 \<le> days_between oct19 oct21 \<and>
   length (days_of (dateRanger parse_model (Many [''2016-10-19'', ''2016-10-21'']))) = 3 \<and>
   map toordinal (days_of (dateRanger parse_model (Many [''2016-10-19'', ''2016-10-21''])))
     = [736256, 736257, 736258] \<and>
   last (days_of (dateRanger parse_model (Many [''2016-10-19'', ''2016-10-21'']))) = oct21"
proof -
  note p = parse_model_examples(1,2)
  have y: "1000 \<le> year oct19" "1000 \<le> year oct21" by (simp_all add: oct19_def oct21_def)
  have t: "toordinal oct19 = 736256" "toordinal oct21 = 736258"
    by code_simp+
  have d: "days_between oct19 oct21 = 2" by (simp add: days_between_def t)
  have c: "combine_min oct21 = oct21" by (simp add: combine_min_def oct21_def)
  from range_includes_both_endpoints[OF dateutil_like_parse_model p y] d
  obtain ds where ds: "dateRanger parse_model (Many [''2016-10-19'', ''2016-10-21'']) = Inr (Days ds)"
    "length ds = nat (days_between oct19 oct21) + 1"
    "map toordinal ds = [toordinal oct19 .. toordinal oct21]"
    "last ds = combine_min oct21"
    by auto
  have u: "[736256 .. 736258] = [736256, 736257, 736258 :: int]"
    by (simp add: upto_rec1)
  show ?thesis using dateutil_like_parse_model p y d ds by (simp add: days_of_def t u c)
qed


section \<open>Version 1 has no mentions table\<close>


lemma env_ex_fields:
  "clock env_ex = now_ex"
  "dateInputCheck env_ex date version = None"
  "urlBuilder env_ex version table stamp = table @ ''/'' @ stamp"
  "mp_worker env_ex kw url = Inr (if kw = Some ''events'' then frame_ex 61 else frame_ex 3)"
  "gkgHeads env_ex = gkg_header_ex" "events2Heads env_ex = events2_header"
  "cameos env_ex code = Inr code"
  "parser env_ex = parse_model"
  "table_is_literal env_ex"
  by (simp_all add: env_ex_def)




section \<open>An empty result\<close>

lemma env_empty_ex_fields:
  "clock env_empty_ex = now_ex"
  "dateInputCheck env_empty_ex date version = None"
  "urlBuilder env_empty_ex version table stamp = table @ ''/'' @ stamp"
  "mp_worker env_empty_ex kw url = Inr (empty_frame_ex 3)"
  "parser env_empty_ex = parse_model"
  "table_is_literal env_empty_ex"
  by (simp_all add: env_empty_ex_def env_ex_def)

lemma finish_not_empty:
  "finish E version table cols results = Inr t \<Longrightarrow> rows t \<noteq> []"
  by (auto simp: finish_def bind_err_def insert_column_def split: sum.splits if_splits)

lemma Search_not_empty:
  "returned (Search E version date table coverage) = Inr t \<Longrightarrow> rows t \<noteq> []"
  by (auto simp: Search_def raised_def Let_def split: option.splits sum.splits if_splits prod.splits
      dest: finish_not_empty)

lemma finish_empty_named:
  assumes "rows results = []" "length cols = length (columns results)"
    "\<not> (table = ''gkg'' \<and> version = 1)"
  shows "finish E version table cols results = Inl NoDataError"
  using assms by (auto simp: finish_def bind_err_def set_columns_def)

text \<open>
  Claim C9. \<^verbatim>\<open>Search\<close> never returns a table without rows (\<open>Search_not_empty\<close>), and
  a table without rows whose columns can be named raises the no-data error
  (\<open>finish_empty_named\<close>). For version 1 and the table \<^verbatim>\<open>'gkg'\<close> the header is read from
  the row labelled 0 (line 307) before the test for an empty table (line 313): when the
  one download succeeds and brings no rows, the exception is the lookup error of
  \<^verbatim>\<open>results.ix[0]\<close>, not the no-data error.
\<close>

theorem empty_gkg_v1_lookup_error:
  "mp_worker env_empty_ex None ''gkg/20161019'' = Inr (empty_frame_ex 3) \<and>
   rows (empty_frame_ex 3) = [] \<and>
   fetched (Search env_empty_ex 1 (Many [''2016-10-19'']) ''gkg'' False) = [''gkg/20161019''] \<and>
   returned (Search env_empty_ex 1 (Many [''2016-10-19'']) ''gkg'' False) = Inl PandasError \<and>
   returned (Search env_empty_ex 1 (Many [''2016-10-19'']) ''gkg'' False) \<noteq> Inl NoDataError"
proof -
  note p = parse_model_examples(1)
  have v: "valid_datetime oct19" "1000 \<le> year oct19" "valid_datetime now_ex"
    using example_days_valid by simp_all
  have q: "spec_era_id oct19 = ''20161019''" by code_simp
  have r: "ranger env_empty_ex 1 c (Many [''2016-10-19'']) = Inr (Str ''20161019'')" for c
    unfolding ranger_def env_empty_ex_fields dateRanger_one[of parse_model, OF p]
    by (simp only: bind_err_def sum.case scalar_v1[OF dateutil_like_parse_model v] q)
  have s: "select_downloads env_empty_ex 1 (Many [''2016-10-19'']) ''gkg'' False
           = Inr (events1Heads env_empty_ex, OneUrl ''gkg/20161019'')"
    by (simp add: select_downloads_def r bind_err_def build_urls_def env_empty_ex_fields
        del: One_nat_def)
  have d: "download env_empty_ex ''gkg'' (Str ''20161019'') (OneUrl ''gkg/20161019'')
           = \<lparr>returned = Inr (empty_frame_ex 3), fetched = [''gkg/20161019''], pooled = False\<rparr>"
    by (simp add: download_def env_empty_ex_fields)
  have f: "finish env_empty_ex 1 ''gkg'' cols (empty_frame_ex 3) = Inl PandasError" for cols
    by (simp add: finish_def ix0_def empty_frame_ex_def bind_err_def)
  have "Search env_empty_ex 1 (Many [''2016-10-19'']) ''gkg'' False
        = \<lparr>returned = Inl PandasError, fetched = [''gkg/20161019''], pooled = False\<rparr>"
    by (simp add: Search_def env_empty_ex_fields r s d f del: One_nat_def)
  then show ?thesis by (simp add: env_empty_ex_fields empty_frame_ex_def)
qed


section \<open>Inline fetch or worker pool\<close>

lemma days_no_coverage:
  "gdeltRangeString P now (Days es) False 2
   = Inr (Lst (map (\<lambda>x. strftime14 (x\<lparr>hour := 23, minute := 45, second := 0\<rparr>)) es))"
  by (simp add: gdeltRangeString_def Let_def bind_err_def end_of_day)

lemma scalar_no_coverage:
  "gdeltRangeString P now (Scalar e) False 2
   = Inr (Str (strftime14 ((if same_date e now then now else e)
                            \<lparr>minute := 15 * (minute now div 15), second := 0\<rparr>)))"
  by (simp add: gdeltRangeString_def Let_def bind_err_def)

lemma ranger_versions:
  "version = 1 \<Longrightarrow> ranger E 1 c date = ranger E version coverage date"
  using ranger_v1_coverage[of E date] by (cases c; cases coverage) simp_all

lemma select_downloads_shape:
  assumes "select_downloads E version date table coverage = Inr (cols, dl)"
  shows "\<exists>c tbl. ranger E version coverage date = Inr c \<and> dl = build_urls E version tbl c"
proof -
  have v: "version = 1 \<or> version = 2"
    using assms by (auto simp: select_downloads_def split: if_splits)
  then show ?thesis
  proof
    assume v1: "version = 1"
    have r: "ranger E 1 True date = ranger E version coverage date"
      "ranger E 1 False date = ranger E version coverage date"
      using v1 by (rule ranger_versions)+
    show ?thesis
      using assms unfolding v1 select_downloads_def r[unfolded v1]
      by (auto simp add: bind_err_def Let_def simp del: One_nat_def split: if_splits sum.splits)
  next
    assume v2: "version = 2"
    show ?thesis
      using assms unfolding v2 select_downloads_def
      by (auto simp add: bind_err_def split: if_splits sum.splits)
  qed
qed

lemma Search_resolved:
  assumes "dateInputCheck E date version = None"
    "ranger E version coverage date = Inr c"
    "select_downloads E version date table coverage = Inr (cols, dl)"
  shows "Search E version date table coverage =
           (let run = download E table c dl in
            case returned run of
              Inl e \<Rightarrow> run
            | Inr results \<Rightarrow> run\<lparr>returned := finish E version table cols results\<rparr>)"
proof -
  have "version = 1 \<or> version = 2"
    using assms(3) by (auto simp: select_downloads_def split: if_splits)
  then show ?thesis using assms by (auto simp: Search_def)
qed

lemma Search_inline:
  assumes "dateInputCheck E date version = None"
    "ranger E version coverage date = Inr (Str s)"
    "select_downloads E version date table coverage = Inr (cols, dl)"
  shows "\<exists>u. dl = OneUrl u \<and> fetched (Search E version date table coverage) = [u] \<and>
             \<not> pooled (Search E version date table coverage)"
proof -
  from select_downloads_shape[OF assms(3)] assms(2)
  obtain tbl where dl: "dl = OneUrl (urlBuilder E version tbl s)"
    by (auto simp: build_urls_def)
  show ?thesis
    unfolding Search_resolved[OF assms] dl
    by (auto simp: download_def Let_def split: sum.splits)
qed

lemma Search_pool:
  assumes "dateInputCheck E date version = None"
    "ranger E version coverage date = Inr c" "\<forall>s. c \<noteq> Str s" "table \<noteq> ''events''"
    "select_downloads E version date table coverage = Inr (cols, dl)"
  shows "\<exists>us. dl = UrlList us \<and> length us = length (stamps (Inr c)) \<and>
              fetched (Search E version date table coverage) = us \<and>
              pooled (Search E version date table coverage) \<and>
              (\<forall>dfs. map_err (mp_worker E None) us = Inr dfs \<longrightarrow>
                 returned (Search E version date table coverage)
                 = bind_err (pd_concat dfs) (\<lambda>r. finish E version table cols (reset_index r)))"
proof -
  from select_downloads_shape[OF assms(5)] assms(2)
  obtain tbl where dl: "dl = build_urls E version tbl c" by auto
  from assms(3) obtain xs where c: "c = Arr xs \<or> c = Lst xs" by (cases c) auto
  then have u: "dl = UrlList (map (urlBuilder E version tbl) xs)"
    using dl by (auto simp: build_urls_def)
  have l: "length (map (urlBuilder E version tbl) xs) = length (stamps (Inr c))"
    using c by (auto simp: stamps_def)
  have d: "download E table c dl =
        \<lparr>returned = bind_err (map_err (mp_worker E None) (map (urlBuilder E version tbl) xs))
                      (\<lambda>downloaded_dfs. bind_err (pd_concat downloaded_dfs) (\<lambda>results. Inr (reset_index results))),
         fetched = map (urlBuilder E version tbl) xs, pooled = True\<rparr>"
    using c assms(4) unfolding u by (auto simp: download_def)
  show ?thesis
    unfolding Search_resolved[OF assms(1,2,5)] d
    using l u by (auto simp: Let_def bind_err_def split: sum.splits)
qed

lemma oct19_facts:
  "strftime14 (oct19\<lparr>hour := 23, minute := 45, second := 0\<rparr>) = ''20161019234500''"
  "strftime14 ((if same_date oct19 now_ex then now_ex else oct19)
                 \<lparr>minute := 15 * (minute now_ex div 15), second := 0\<rparr>) = ''20161019003000''"
  "combine_min oct19 = oct19"
  "1000 \<le> year oct19"
  by code_simp+

lemma ranger_oct19_twice:
  "ranger env_ex 2 False (Many [''2016-10-19'', ''2016-10-19'']) = Inr (Lst [''20161019234500''])"
proof -
  note p = parse_model_examples(1)
  have "dateRanger parse_model (Many [''2016-10-19'', ''2016-10-19'']) = Inr (Days [oct19])"
    using dateRanger_range[OF dateutil_like_parse_model p p oct19_facts(4) oct19_facts(4)]
    by (simp add: oct19_facts(3) arange_days_def days_between_def)
  then show ?thesis
    by (simp add: ranger_def bind_err_def days_no_coverage oct19_facts(1) env_ex_fields)
qed

lemma ranger_oct19_once:
  "ranger env_ex 2 False (Many [''2016-10-19'']) = Inr (Str ''20161019003000'')"
  by (simp add: ranger_def bind_err_def dateRanger_one[of parse_model, OF parse_model_examples(1)]
      scalar_no_coverage env_ex_fields oct19_facts(2))

text \<open>
  Claim C5 says that a file set of exactly one member is fetched without a pool. The
  range from 2016-10-19 to 2016-10-19 resolves to a list of one timestamp; a list is not a
  \<^verbatim>\<open>str\<close>, so for the table \<^verbatim>\<open>'gkg'\<close> the one URL goes through a pool.
\<close>

theorem one_file_pooled_counterexample:
  "length (stamps (ranger env_ex 2 False (Many [''2016-10-19'', ''2016-10-19'']))) = 1 \<and>
   fetched (Search env_ex 2 (Many [''2016-10-19'', ''2016-10-19'']) ''gkg'' False)
     = [''gkg/20161019234500''] \<and>
   pooled (Search env_ex 2 (Many [''2016-10-19'', ''2016-10-19'']) ''gkg'' False)"
proof -
  have s: "select_downloads env_ex 2 (Many [''2016-10-19'', ''2016-10-19'']) ''gkg'' False
           = Inr (gkg_header_ex, UrlList [''gkg/20161019234500''])"
    by (simp add: select_downloads_def ranger_oct19_twice bind_err_def build_urls_def env_ex_fields)
  from Search_pool[OF env_ex_fields(2) ranger_oct19_twice _ _ s]
  show ?thesis by (simp add: ranger_oct19_twice stamps_def)
qed

text \<open>
  Claim C5, amended. What decides is the type of the resolved timestamps. When the
  date spec resolves to one \<^verbatim>\<open>str\<close>, the one URL is fetched by a direct call and no
  pool is started. When it resolves to a list or an array (of any length, one included)
  and the table is not \<^verbatim>\<open>'events'\<close>, every URL is handed to a pool, and when all
  downloads succeed the batches are concatenated and the row index is reset to
  \<open>0, 1, ...\<close> before column naming and the later steps.
\<close>

theorem fetch_inline_or_pooled:
  "(dateInputCheck E date version = None \<and> ranger E version coverage date = Inr (Str s) \<and>
    select_downloads E version date table coverage = Inr (cols, dl) \<longrightarrow>
      (\<exists>u. dl = OneUrl u \<and> fetched (Search E version date table coverage) = [u] \<and>
           \<not> pooled (Search E version date table coverage))) \<and>
   (dateInputCheck E date version = None \<and> ranger E version coverage date = Inr c \<and>
    (\<forall>s. c \<noteq> Str s) \<and> table \<noteq> ''events'' \<and>
    select_downloads E version date table coverage = Inr (cols, dl) \<longrightarrow>
      (\<exists>us. dl = UrlList us \<and> length us = length (stamps (Inr c)) \<and>
            fetched (Search E version date table coverage) = us \<and>
            pooled (Search E version date table coverage) \<and>
            (\<forall>dfs. map_err (mp_worker E None) us = Inr dfs \<longrightarrow>
               returned (Search E version date table coverage)
               = bind_err (pd_concat dfs) (\<lambda>r. finish E version table cols (reset_index r))))) \<and>
   index (reset_index f) = [0 ..< length (rows f)] \<and> rows (reset_index f) = rows f"
  using Search_inline[of E date version coverage s table cols dl]
    Search_pool[of E date version coverage c table cols dl]
  by (simp add: reset_index_def)

theorem fetch_inline_or_pooled_witness:
  "dateInputCheck env_ex (Many [''2016-10-19'']) 2 = None \<and>
   ranger env_ex 2 False (Many [''2016-10-19'']) = Inr (Str ''20161019003000'') \<and>
   select_downloads env_ex 2 (Many [''2016-10-19'']) ''gkg'' False
     = Inr (gkg_header_ex, OneUrl ''gkg/20161019003000'') \<and>
   fetched (Search env_ex 2 (Many [''2016-10-19'']) ''gkg'' False) = [''gkg/20161019003000''] \<and>
   \<not> pooled (Search env_ex 2 (Many [''2016-10-19'']) ''gkg'' False) \<and>
   ranger env_ex 2 False (Many [''2016-10-19'', ''2016-10-19'']) = Inr (Lst [''20161019234500'']) \<and>
   ''gkg'' \<noteq> ''events'' \<and>
   select_downloads env_ex 2 (Many [''2016-10-19'', ''2016-10-19'']) ''gkg'' False
     = Inr (gkg_header_ex, UrlList [''gkg/20161019234500'']) \<and>
   fetched (Search env_ex 2 (Many [''2016-10-19'', ''2016-10-19'']) ''gkg'' False)
     = [''gkg/20161019234500''] \<and>
   pooled (Search env_ex 2 (Many [''2016-10-19'', ''2016-10-19'']) ''gkg'' False) \<and>
   returned (Search env_ex 2 (Many [''2016-10-19'', ''2016-10-19'']) ''gkg'' False)
     = bind_err (pd_concat [frame_ex 3]) (\<lambda>r. finish env_ex 2 ''gkg'' gkg_header_ex (reset_index r))"
proof -
  have s1: "select_downloads env_ex 2 (Many [''2016-10-19'']) ''gkg'' False
           = Inr (gkg_header_ex, OneUrl ''gkg/20161019003000'')"
    by (simp add: select_downloads_def ranger_oct19_once bind_err_def build_urls_def env_ex_fields)
  have s2: "select_downloads env_ex 2 (Many [''2016-10-19'', ''2016-10-19'']) ''gkg'' False
           = Inr (gkg_header_ex, UrlList [''gkg/20161019234500''])"
    by (simp add: select_downloads_def ranger_oct19_twice bind_err_def build_urls_def env_ex_fields)
  have m: "map_err (mp_worker env_ex None) [''gkg/20161019234500''] = Inr [frame_ex 3]"
    by (simp add: env_ex_fields)
  have a: "fetched (Search env_ex 2 (Many [''2016-10-19'']) ''gkg'' False) = [''gkg/20161019003000''] \<and>
        \<not> pooled (Search env_ex 2 (Many [''2016-10-19'']) ''gkg'' False)"
    using fetch_inline_or_pooled[of env_ex "Many [''2016-10-19'']" 2 False "''20161019003000''"
        "''gkg''" gkg_header_ex "OneUrl ''gkg/20161019003000''"]
      env_ex_fields(2) ranger_oct19_once s1 by simp
  have b: "fetched (Search env_ex 2 (Many [''2016-10-19'', ''2016-10-19'']) ''gkg'' False)
             = [''gkg/20161019234500''] \<and>
        pooled (Search env_ex 2 (Many [''2016-10-19'', ''2016-10-19'']) ''gkg'' False) \<and>
        returned (Search env_ex 2 (Many [''2016-10-19'', ''2016-10-19'']) ''gkg'' False)
          = bind_err (pd_concat [frame_ex 3]) (\<lambda>r. finish env_ex 2 ''gkg'' gkg_header_ex (reset_index r))"
    using fetch_inline_or_pooled[of env_ex "Many [''2016-10-19'', ''2016-10-19'']" 2 False _
        "''gkg''" gkg_header_ex "UrlList [''gkg/20161019234500'']" "Lst [''20161019234500'']"]
      env_ex_fields(2) ranger_oct19_twice s2 m by simp
  show ?thesis
    using a b s1 s2 ranger_oct19_once ranger_oct19_twice env_ex_fields(2) by simp
qed

section \<open>Version 2 without coverage: a single day takes its minute from the clock\<close>

text \<open>
  Claim C1. Without coverage every day of a list of days resolves to that day at 23:45:00
  (\<open>days_no_coverage\<close>), and a single day that is the current day to the clock floored to
  15 minutes. A single day that is not the current day is resolved by
  \<^verbatim>\<open>element.replace(minute=int(multiple), second=0)\<close>: the minute is the floored minute
  of the clock and the hour stays that of the day. With the clock at 2016-11-01 10:37:12
  the date spec \<^verbatim>\<open>["2016-10-19"]\<close> resolves to \<^verbatim>\<open>20161019003000\<close>, not to
  \<^verbatim>\<open>20161019234500\<close>, and that is the file fetched for the table \<^verbatim>\<open>'events'\<close>; the same day
  given as the range \<^verbatim>\<open>["2016-10-19", "2016-10-19"]\<close> resolves to \<^verbatim>\<open>20161019234500\<close>.
\<close>

theorem single_day_no_coverage_clock_minute:
  "clock env_ex = now_ex \<and>
   ranger env_ex 2 False (Many [''2016-10-19'']) = Inr (Str ''20161019003000'') \<and>
   ranger env_ex 2 False (Many [''2016-10-19'']) \<noteq> Inr (Str ''20161019234500'') \<and>
   fetched (Search env_ex 2 (Many [''2016-10-19'']) ''events'' False) = [''events/20161019003000''] \<and>
   ranger env_ex 2 False (Many [''2016-10-19'', ''2016-10-19'']) = Inr (Lst [''20161019234500''])"
proof -
  have s: "select_downloads env_ex 2 (Many [''2016-10-19'']) ''events'' False
           = Inr (events2_header, OneUrl ''events/20161019003000'')"
    by (simp add: select_downloads_def ranger_oct19_once bind_err_def build_urls_def env_ex_fields)
  from Search_inline[OF env_ex_fields(2) ranger_oct19_once s]
  have "fetched (Search env_ex 2 (Many [''2016-10-19'']) ''events'' False) = [''events/20161019003000'']"
    by simp
  then show ?thesis
    by (simp add: ranger_oct19_once ranger_oct19_twice env_ex_fields)
qed

section \<open>Version 2 with coverage: the current day in a list of days\<close>

lemma ranger_oct31_nov01:
  "ranger env_ex 2 True (Many [''2016-10-31'', ''2016-11-01''])
   = Inr (Arr (concat (map (\<lambda>e. map (spec_quarter e) [0 ..< 96]) [oct31, nov01])))"
proof -
  have y: "1000 \<le> year oct31" "1000 \<le> year nov01" by (simp_all add: oct31_def nov01_def)
  have t: "toordinal oct31 = 736268" "toordinal nov01 = 736269" by code_simp+
  have c: "combine_min oct31 = oct31" "combine_min nov01 = nov01"
    by (simp_all add: combine_min_def oct31_def nov01_def)
  have "dateRanger parse_model (Many [''2016-10-31'', ''2016-11-01'']) = Inr (Days [oct31, nov01])"
    using dateRanger_range[OF dateutil_like_parse_model parse_model_examples(3,4) y]
    by (simp add: c arange_days_def days_between_def t)
  moreover have "\<forall>e \<in> set [oct31, nov01]. valid_datetime e \<and> 1000 \<le> year e \<and> second e = 0"
    using example_days_valid(2,3) by simp
  ultimately show ?thesis
    using days_coverage[OF dateutil_like_parse_model, of "[oct31, nov01]" now_ex]
    by (simp add: ranger_def bind_err_def env_ex_fields)
qed

lemma ranger_nov01:
  "\<exists>ts. ranger env_ex 2 True (Many [''2016-11-01'']) = Inr (Arr ts) \<and> length ts = 43 \<and>
        last ts = ''20161101103000''"
proof -
  have sd: "same_date nov01 now_ex" by (simp add: same_date_def nov01_def now_ex_def)
  have v: "valid_datetime nov01" "1000 \<le> year nov01" "second nov01 = 0" "valid_datetime now_ex"
    using example_days_valid by simp_all
  have n: "4 * hour now_ex + minute now_ex div 15 + 1 = 43" by (simp add: now_ex_def)
  have f: "strftime14 (now_ex\<lparr>minute := 15 * (minute now_ex div 15), second := 0\<rparr>) = ''20161101103000''"
    by code_simp
  from scalar_coverage_today_last[OF dateutil_like_parse_model v(1-3) sd v(4)]
  obtain ts where ts: "gdeltRangeString parse_model now_ex (Scalar nov01) True 2 = Inr (Arr ts)"
    "length ts = 43" "last ts = ''20161101103000''"
    unfolding n f by blast
  have "ranger env_ex 2 True (Many [''2016-11-01'']) = Inr (Arr ts)"
    by (simp add: ranger_def bind_err_def env_ex_fields ts(1)
        dateRanger_one[of parse_model, OF parse_model_examples(4)])
  with ts(2,3) show ?thesis by blast
qed

text \<open>
  Claim C7. With coverage, a single day that is the current day stops at the quarter hour
  of the clock (\<open>scalar_coverage_today_last\<close>). The branch for a list of days has no test
  for the current day: with the clock at 2016-11-01 10:37:12 the date spec
  \<^verbatim>\<open>["2016-10-31", "2016-11-01"]\<close> resolves to 192 texts, the last of them
  \<^verbatim>\<open>20161101234500\<close>, while the floor of the clock is \<^verbatim>\<open>20161101103000\<close>, which is where
  the single-day spec \<^verbatim>\<open>["2016-11-01"]\<close> stops.
\<close>

theorem coverage_list_today_not_floored:
  "clock env_ex = now_ex \<and> same_date nov01 now_ex \<and>
   strftime14 (now_ex\<lparr>minute := 15 * (minute now_ex div 15), second := 0\<rparr>) = ''20161101103000'' \<and>
   length (stamps (ranger env_ex 2 True (Many [''2016-10-31'', ''2016-11-01'']))) = 192 \<and>
   last (stamps (ranger env_ex 2 True (Many [''2016-10-31'', ''2016-11-01'']))) = ''20161101234500'' \<and>
   length (stamps (ranger env_ex 2 True (Many [''2016-11-01'']))) = 43 \<and>
   last (stamps (ranger env_ex 2 True (Many [''2016-11-01'']))) = ''20161101103000''"
proof -
  have a: "same_date nov01 now_ex" by (simp add: nov01_def now_ex_def same_date_def)
  have b: "strftime14 (now_ex\<lparr>minute := 15 * (minute now_ex div 15), second := 0\<rparr>) = ''20161101103000''"
    by code_simp
  have c: "spec_quarter nov01 95 = ''20161101234500''" by code_simp
  have l: "last (stamps (ranger env_ex 2 True (Many [''2016-10-31'', ''2016-11-01'']))) = spec_quarter nov01 95"
    by (simp add: ranger_oct31_nov01 stamps_def last_map)
  have n: "length (stamps (ranger env_ex 2 True (Many [''2016-10-31'', ''2016-11-01'']))) = 192"
    by (simp add: ranger_oct31_nov01 stamps_def)
  from ranger_nov01 obtain ts where ts: "ranger env_ex 2 True (Many [''2016-11-01'']) = Inr (Arr ts)"
    "length ts = 43" "last ts = ''20161101103000''" by blast
  show ?thesis using a b c l n ts by (simp add: stamps_def env_ex_fields)
qed

end
